theory Spec2Isabelle
  imports Complex_Main "HOL-Library.Sublist"
begin

section \<open>CADMarking.py: marking of CAD submissions\<close>

text \<open>
  A shallow embedding of \<^verbatim>\<open>src/CADMarking.py\<close>. Python's numbers (the floats the
  geometry kernel returns and the integer marks) are idealised as exact rationals;
  \<^verbatim>\<open>None\<close> is \<open>None\<close> of an option type; a Python exception is the left
  injection of a sum type.
\<close>

subsection \<open>Exceptions and arithmetic\<close>

datatype py_error = ZeroDivisionError | TypeError | OSError | ValueError

text \<open>Python's true division \<^verbatim>\<open>a / b\<close> raises on a zero divisor.\<close>

definition py_truediv :: "rat \<Rightarrow> rat \<Rightarrow> py_error + rat" where
  "py_truediv a b = (if b = 0 then Inl ZeroDivisionError else Inr (a / b))"

subsection \<open>calculate_mark (lines 121-138)\<close>

text \<open>
  The local variable \<^verbatim>\<open>percentage\<close> of line 127:
  \<^verbatim>\<open>abs((value - expected_value) / expected_value) * 100\<close>.
\<close>

definition percentage :: "rat \<Rightarrow> rat \<Rightarrow> py_error + rat" where
  "percentage v expected_value =
     (case py_truediv (v - expected_value) expected_value of
        Inl e \<Rightarrow> Inl e
      | Inr q \<Rightarrow> Inr (\<bar>q\<bar> * 100))"

fun calculate_mark :: "rat option \<Rightarrow> rat option \<Rightarrow> py_error + int" where
  "calculate_mark None _ = Inr 0"
| "calculate_mark (Some v) None = Inr 0"
| "calculate_mark (Some v) (Some expected_value) =
     (if expected_value = 0 then Inr 0
      else case percentage v expected_value of
        Inl e \<Rightarrow> Inl e
      | Inr p \<Rightarrow>
          if p \<le> 1 then Inr 5
          else if p \<le> 20 then Inr 4
          else if p \<le> 40 then Inr 3
          else if p \<le> 60 then Inr 2
          else if p \<le> 80 then Inr 1
          else Inr 0)"

subsection \<open>The mark table as the specification words it\<close>

text \<open>
  The specification's formula \<open>|measured - expected| / expected * 100\<close> and its
  ordered table of inclusive upper bounds, looked up from the top.
\<close>

definition spec_percentageError :: "rat \<Rightarrow> rat \<Rightarrow> rat" where
  "spec_percentageError measured expected = \<bar>measured - expected\<bar> / expected * 100"

definition bucket_table :: "(rat \<times> int) list" where
  "bucket_table = [(1, 5), (20, 4), (40, 3), (60, 2), (80, 1)]"

fun lookup_bucket :: "(rat \<times> int) list \<Rightarrow> rat \<Rightarrow> int" where
  "lookup_bucket [] p = 0"
| "lookup_bucket ((bound, m) # rest) p = (if p \<le> bound then m else lookup_bucket rest p)"

definition spec_mark_of_error :: "rat \<Rightarrow> int" where
  "spec_mark_of_error p = lookup_bucket bucket_table p"

subsection \<open>The centre-of-gravity mark (lines 176-179 of process_submissions)\<close>

text \<open>
  \<^verbatim>\<open>expected_cg[0]\<close> on \<^verbatim>\<open>None\<close> raises TypeError. The quotient of an
  integer mark by 3 is the exact third.
\<close>

definition axis_mark :: "rat \<Rightarrow> rat \<Rightarrow> py_error + rat" where
  "axis_mark c expected_c =
     (case calculate_mark (Some c) (Some expected_c) of
        Inl e \<Rightarrow> Inl e
      | Inr m \<Rightarrow> Inr (of_int m / 3))"

definition cg_mark :: "rat \<times> rat \<times> rat \<Rightarrow> (rat \<times> rat \<times> rat) option \<Rightarrow> py_error + rat" where
  "cg_mark cg expected_cg =
     (case expected_cg of
        None \<Rightarrow> Inl TypeError
      | Some (ex, ey, ez) \<Rightarrow>
          (case cg of (x, y, z) \<Rightarrow>
            (case axis_mark x ex of
               Inl e \<Rightarrow> Inl e
             | Inr cg_x_mark \<Rightarrow>
                 (case axis_mark y ey of
                    Inl e \<Rightarrow> Inl e
                  | Inr cg_y_mark \<Rightarrow>
                      (case axis_mark z ez of
                         Inl e \<Rightarrow> Inl e
                       | Inr cg_z_mark \<Rightarrow> Inr (cg_x_mark + cg_y_mark + cg_z_mark))))))"

subsection \<open>Strings and paths\<close>

text \<open>\<^verbatim>\<open>s.endswith(suffix)\<close>.\<close>

definition endswith :: "string \<Rightarrow> string \<Rightarrow> bool" where
  "endswith s suf =
     (length suf \<le> length s \<and> drop (length s - length suf) s = suf)"

text \<open>
  A path is the pair of a directory and an entry name: \<^verbatim>\<open>os.path.join(d, n)\<close> for an
  entry name \<open>n\<close> as \<^verbatim>\<open>os.listdir\<close> returns it, and \<^verbatim>\<open>os.path.basename\<close> gives the
  name back. \<^verbatim>\<open>os.path.splitext\<close> on an entry name splits at the last dot, unless only
  dots precede it.
\<close>

type_synonym path = "string \<times> string"

definition os_path_join :: "string \<Rightarrow> string \<Rightarrow> path" where
  "os_path_join d n = (d, n)"

definition os_path_basename :: "path \<Rightarrow> string" where
  "os_path_basename p = snd p"

definition os_path_splitext :: "string \<Rightarrow> string \<times> string" where
  "os_path_splitext p =
     (let r = dropWhile (\<lambda>c. c \<noteq> CHR ''.'') (rev p) in
      if r = [] then (p, [])
      else let root = rev (tl r) in
        if list_all (\<lambda>c. c = CHR ''.'') root then (p, [])
        else (root, drop (length root) p))"

subsection \<open>The world outside the program\<close>

text \<open>
  The file system maps a directory to its entries in listing order. Solid Edge and the
  OpenCASCADE reader are oracles: what the k-th call does on a given path. The world
  records what was printed and the calls made to the two services; each export call is
  logged with the value it returned.
\<close>

datatype kind = RegularFile | Directory

datatype export_outcome = OpenRaises | SaveAsRaises | Saved

datatype read_outcome =
    RetNotDone
  | ReadRaises
  | RetDone rat rat "rat \<times> rat \<times> rat"

datatype message =
    ErrorExporting path
  | ErrorReading path
  | ErrorProcessing path
  | DeletedFile path
  | ErrorDeleting path
  | FailedToExport string nat
  | ErrorCalculating string
  | Processed nat nat

record env =
  solid_edge :: "nat \<Rightarrow> path \<Rightarrow> export_outcome"
  step_reader :: "nat \<Rightarrow> path \<Rightarrow> read_outcome"

record world =
  fs :: "string \<Rightarrow> (string \<times> kind) list"
  stdout :: "message list"
  export_calls :: "(path \<times> path option) list"
  read_calls :: "path list"

definition py_print :: "message \<Rightarrow> world \<Rightarrow> world" where
  "py_print m w = w\<lparr>stdout := stdout w @ [m]\<rparr>"

definition os_listdir :: "string \<Rightarrow> world \<Rightarrow> string list" where
  "os_listdir d w = map fst (fs w d)"

definition os_path_isfile :: "path \<Rightarrow> world \<Rightarrow> bool" where
  "os_path_isfile p w = ((snd p, RegularFile) \<in> set (fs w (fst p)))"

definition entry_exists :: "path \<Rightarrow> world \<Rightarrow> bool" where
  "entry_exists p w = (snd p \<in> set (map fst (fs w (fst p))))"

text \<open>\<^verbatim>\<open>os.remove\<close> deletes a regular file and raises on anything else.\<close>

definition os_remove :: "path \<Rightarrow> world \<Rightarrow> py_error + world" where
  "os_remove p w =
     (if os_path_isfile p w
      then Inr (w\<lparr>fs := (fs w)(fst p := removeAll (snd p, RegularFile) (fs w (fst p)))\<rparr>)
      else Inl OSError)"

definition save_file :: "path \<Rightarrow> world \<Rightarrow> world" where
  "save_file p w = w\<lparr>fs := (fs w)(fst p := fs w (fst p) @ [(snd p, RegularFile)])\<rparr>"

subsection \<open>export_to_step (lines 15-53)\<close>

text \<open>
  Any exception inside the \<^verbatim>\<open>try\<close> prints the error and returns \<^verbatim>\<open>None\<close>. The
  oracle says whether opening the document raises, whether \<^verbatim>\<open>SaveAs\<close> raises, or
  whether the file is saved; \<^verbatim>\<open>SaveAs\<close> cannot write over a directory. Closing the
  document and quitting the application in the \<^verbatim>\<open>finally\<close> block change neither the
  return value nor the files.
\<close>

definition export_return :: "path \<Rightarrow> path option \<Rightarrow> world \<Rightarrow> path option \<times> world" where
  "export_return par_file_path r w =
     (r, w\<lparr>export_calls := export_calls w @ [(par_file_path, r)]\<rparr>)"

text \<open>Lines 27-28: the path of the STEP file for a document and an output directory.\<close>

definition step_file_path_of :: "path \<Rightarrow> string \<Rightarrow> path" where
  "step_file_path_of par_file_path output_dir =
     (let name = fst (os_path_splitext (os_path_basename par_file_path))
      in os_path_join output_dir (name @ ''.step''))"

definition export_to_step :: "env \<Rightarrow> path \<Rightarrow> string \<Rightarrow> world \<Rightarrow> path option \<times> world" where
  "export_to_step E par_file_path output_dir w =
     (case solid_edge E (length (export_calls w)) par_file_path of
        OpenRaises \<Rightarrow> export_return par_file_path None (py_print (ErrorExporting par_file_path) w)
      | outcome \<Rightarrow>
          (let step_file_path = step_file_path_of par_file_path output_dir
           in case (if os_path_isfile step_file_path w then os_remove step_file_path w else Inr w) of
                Inl e \<Rightarrow> export_return par_file_path None (py_print (ErrorExporting par_file_path) w)
              | Inr w1 \<Rightarrow>
                  if outcome = Saved \<and> \<not> entry_exists step_file_path w1
                  then export_return par_file_path (Some step_file_path) (save_file step_file_path w1)
                  else export_return par_file_path None (py_print (ErrorExporting par_file_path) w1)))"

subsection \<open>clean_up_files (lines 56-67)\<close>

definition clean_up_file :: "string \<Rightarrow> string \<Rightarrow> world \<Rightarrow> world" where
  "clean_up_file output_dir file w =
     (if endswith file ''.txt'' \<or> endswith file ''.log''
      then (let file_path = os_path_join output_dir file in
            case os_remove file_path w of
              Inr w' \<Rightarrow> py_print (DeletedFile file_path) w'
            | Inl e \<Rightarrow> py_print (ErrorDeleting file_path) w)
      else w)"

definition clean_up_files :: "string \<Rightarrow> world \<Rightarrow> world" where
  "clean_up_files output_dir w = fold (clean_up_file output_dir) (os_listdir output_dir w) w"

subsection \<open>calculate_properties (lines 70-104)\<close>

type_synonym properties = "rat option \<times> rat option \<times> (rat \<times> rat \<times> rat) option"

definition calculate_properties :: "env \<Rightarrow> path \<Rightarrow> world \<Rightarrow> properties \<times> world" where
  "calculate_properties E step_file_path w =
     (let w1 = w\<lparr>read_calls := read_calls w @ [step_file_path]\<rparr> in
      case step_reader E (length (read_calls w)) step_file_path of
        RetNotDone \<Rightarrow> ((None, None, None), py_print (ErrorReading step_file_path) w1)
      | ReadRaises \<Rightarrow> ((None, None, None), py_print (ErrorProcessing step_file_path) w1)
      | RetDone volume surface_area cg \<Rightarrow> ((Some volume, Some surface_area, Some cg), w1))"

subsection \<open>extract_expected_values (lines 107-118)\<close>

definition extract_expected_values ::
  "env \<Rightarrow> path \<Rightarrow> string \<Rightarrow> world \<Rightarrow> py_error + (properties \<times> world)" where
  "extract_expected_values E solution_file_path output_dir w =
     (case export_to_step E solution_file_path output_dir w of
        (Some step_file_path, w1) \<Rightarrow>
          (case calculate_properties E step_file_path w1 of
             (expected, w2) \<Rightarrow>
               (case (if os_path_isfile step_file_path w2 then os_remove step_file_path w2
                      else Inr w2) of
                  Inl e \<Rightarrow> Inl e
                | Inr w3 \<Rightarrow> Inr (expected, clean_up_files output_dir w3)))
      | (None, w1) \<Rightarrow> Inr ((None, None, None), w1))"

subsection \<open>process_submissions (lines 141-199)\<close>

record result =
  StudentID :: string
  Volume :: rat
  SurfaceArea :: rat
  CenterOfGravity :: "rat \<times> rat \<times> rat"
  VolumeMark :: int
  SurfaceAreaMark :: int
  CGMark :: rat

definition retry_count :: nat where
  "retry_count = 3"

text \<open>
  Lines 155-159: \<^verbatim>\<open>step_file_path = None\<close>, then
  \<^verbatim>\<open>for _ in range(retry_count)\<close> with a \<^verbatim>\<open>break\<close> on a truthy path.
\<close>

fun export_retry :: "env \<Rightarrow> nat \<Rightarrow> path \<Rightarrow> string \<Rightarrow> world \<Rightarrow> path option \<times> world" where
  "export_retry E 0 par_file_path output_dir w = (None, w)"
| "export_retry E (Suc n) par_file_path output_dir w =
     (case export_to_step E par_file_path output_dir w of
        (Some step_file_path, w1) \<Rightarrow> (Some step_file_path, w1)
      | (None, w1) \<Rightarrow> export_retry E n par_file_path output_dir w1)"

type_synonym loop_state = "result list \<times> nat \<times> world"

text \<open>The body of the loop over the listing (lines 150-196); \<^verbatim>\<open>continue\<close> ends it early.\<close>

definition submission_body ::
  "env \<Rightarrow> string \<Rightarrow> string \<Rightarrow> rat option \<Rightarrow> rat option \<Rightarrow> (rat \<times> rat \<times> rat) option \<Rightarrow> nat \<Rightarrow>
   string \<Rightarrow> loop_state \<Rightarrow> py_error + loop_state" where
  "submission_body E submissions_folder output_dir expected_volume expected_surface_area
     expected_cg total_submissions file_name st =
     (case st of (results, submission_count, w) \<Rightarrow>
      if endswith file_name ''.par'' then
        (let student_id = fst (os_path_splitext file_name);
             par_file_path = os_path_join submissions_folder file_name
         in case export_retry E retry_count par_file_path output_dir w of
              (None, w1) \<Rightarrow>
                Inr (results, submission_count, py_print (FailedToExport file_name retry_count) w1)
            | (Some step_file_path, w1) \<Rightarrow>
                (case calculate_properties E step_file_path w1 of
                   ((Some volume, Some surface_area, Some cg), w2) \<Rightarrow>
                     (case calculate_mark (Some volume) expected_volume of
                        Inl e \<Rightarrow> Inl e
                      | Inr volume_mark \<Rightarrow>
                     (case calculate_mark (Some surface_area) expected_surface_area of
                        Inl e \<Rightarrow> Inl e
                      | Inr surface_area_mark \<Rightarrow>
                     (case cg_mark cg expected_cg of
                        Inl e \<Rightarrow> Inl e
                      | Inr cg_mark' \<Rightarrow>
                     (case (if os_path_isfile step_file_path w2 then os_remove step_file_path w2
                            else Inr w2) of
                        Inl e \<Rightarrow> Inl e
                      | Inr w3 \<Rightarrow>
                          Inr (results @
                                 [\<lparr>StudentID = student_id, Volume = volume,
                                   SurfaceArea = surface_area, CenterOfGravity = cg,
                                   VolumeMark = volume_mark, SurfaceAreaMark = surface_area_mark,
                                   CGMark = cg_mark'\<rparr>],
                               submission_count + 1,
                               py_print (Processed (submission_count + 1) total_submissions) w3)))))
                 | (_, w2) \<Rightarrow>
                     Inr (results, submission_count, py_print (ErrorCalculating file_name) w2)))
      else Inr (results, submission_count, w))"

fun submissions_loop ::
  "env \<Rightarrow> string \<Rightarrow> string \<Rightarrow> rat option \<Rightarrow> rat option \<Rightarrow> (rat \<times> rat \<times> rat) option \<Rightarrow> nat \<Rightarrow>
   string list \<Rightarrow> loop_state \<Rightarrow> py_error + loop_state" where
  "submissions_loop E sf od ev es ecg n_total [] st = Inr st"
| "submissions_loop E sf od ev es ecg n_total (file_name # rest) st =
     (case submission_body E sf od ev es ecg n_total file_name st of
        Inl e \<Rightarrow> Inl e
      | Inr st' \<Rightarrow> submissions_loop E sf od ev es ecg n_total rest st')"

definition process_submissions ::
  "env \<Rightarrow> string \<Rightarrow> string \<Rightarrow> rat option \<Rightarrow> rat option \<Rightarrow> (rat \<times> rat \<times> rat) option \<Rightarrow>
   world \<Rightarrow> py_error + (result list \<times> world)" where
  "process_submissions E submissions_folder output_dir expected_volume expected_surface_area
     expected_cg w =
     (let total_submissions =
            length (filter (\<lambda>f. endswith f ''.par'') (os_listdir submissions_folder w))
      in case submissions_loop E submissions_folder output_dir expected_volume
                expected_surface_area expected_cg total_submissions
                (os_listdir submissions_folder w) ([], 0, w) of
           Inl e \<Rightarrow> Inl e
         | Inr (results, submission_count, w1) \<Rightarrow> Inr (results, clean_up_files output_dir w1))"

text \<open>
  The two diagnostics that end an iteration early (lines 162 and 169) and the progress
  line (line 196), told apart from the other printed lines.
\<close>

definition is_skip :: "message \<Rightarrow> bool" where
  "is_skip m = (case m of FailedToExport _ _ \<Rightarrow> True | ErrorCalculating _ \<Rightarrow> True | _ \<Rightarrow> False)"

definition is_progress :: "message \<Rightarrow> bool" where
  "is_progress m = (case m of Processed _ _ \<Rightarrow> True | _ \<Rightarrow> False)"

subsection \<open>save_results_to_csv (lines 202-225)\<close>

text \<open>
  \<^verbatim>\<open>f"{x:.3f}"\<close>: the decimal expansion with a fixed number of digits after the point,
  rounded half to even, with the sign of the value.
\<close>

definition digit_char :: "nat \<Rightarrow> char" where
  "digit_char d = ''0123456789'' ! d"

fun digits10 :: "nat \<Rightarrow> string" where
  "digits10 n = (if n < 10 then [digit_char n] else digits10 (n div 10) @ [digit_char (n mod 10)])"

declare digits10.simps [simp del]

definition round_half_even :: "rat \<Rightarrow> int" where
  "round_half_even y =
     (let f = \<lfloor>y\<rfloor>; r = y - of_int f in
      if r < 1 / 2 then f
      else if 1 / 2 < r then f + 1
      else if even f then f else f + 1)"

definition format_f :: "nat \<Rightarrow> rat \<Rightarrow> string" where
  "format_f d x =
     (let n = nat (round_half_even (\<bar>x\<bar> * 10 ^ d));
          frac = digits10 (n mod 10 ^ d)
      in (if x < 0 then ''-'' else []) @ digits10 (n div 10 ^ d)
         @ (if d = 0 then [] else ''.'' @ replicate (d - length frac) (CHR ''0'') @ frac))"

text \<open>
  The file is the list of the rows written, each row the list of its fields. A
  \<^verbatim>\<open>csv.DictWriter\<close> writes the values of a dictionary in the order of its field names,
  an empty field for a missing key, and raises ValueError on a key that is no field name.
\<close>

type_synonym csv_file = "string list list"

definition fieldnames :: "string list" where
  "fieldnames = [''StudentID'', ''Volume'', ''SurfaceArea'', ''CenterOfGravity'',
                 ''VolumeMark'', ''SurfaceAreaMark'', ''CGMark'']"

definition writeheader :: "string list \<Rightarrow> csv_file \<Rightarrow> csv_file" where
  "writeheader names f = f @ [names]"

definition writerow :: "string list \<Rightarrow> (string \<times> string) list \<Rightarrow> csv_file \<Rightarrow> py_error + csv_file" where
  "writerow names rowdict f =
     (if list_all (\<lambda>kv. fst kv \<in> set names) rowdict
      then Inr (f @ [map (\<lambda>k. case map_of rowdict k of Some v \<Rightarrow> v | None \<Rightarrow> []) names])
      else Inl ValueError)"

text \<open>
  The dictionary of lines 213-225. A result of process_submissions holds numbers and a
  triple, so the \<^verbatim>\<open>isinstance\<close> tests of lines 215-221 succeed.
\<close>

definition row_of_result :: "result \<Rightarrow> (string \<times> string) list" where
  "row_of_result result =
     [(''StudentID'', StudentID result),
      (''Volume'', format_f 3 (Volume result)),
      (''SurfaceArea'', format_f 3 (SurfaceArea result)),
      (''CenterOfGravity'',
         (case CenterOfGravity result of
            (x, y, z) \<Rightarrow> ''('' @ format_f 3 x @ '', '' @ format_f 3 y @ '', '' @ format_f 3 z @ '')'')),
      (''VolumeMark'', format_f 2 (of_int (VolumeMark result))),
      (''SurfaceAreaMark'', format_f 2 (of_int (SurfaceAreaMark result))),
      (''CGMark'', format_f 2 (CGMark result))]"

fun write_rows :: "result list \<Rightarrow> csv_file \<Rightarrow> py_error + csv_file" where
  "write_rows [] f = Inr f"
| "write_rows (result # results) f =
     (case writerow fieldnames (row_of_result result) f of
        Inl e \<Rightarrow> Inl e
      | Inr f' \<Rightarrow> write_rows results f')"

definition save_results_to_csv :: "result list \<Rightarrow> py_error + csv_file" where
  "save_results_to_csv results = write_rows results (writeheader fieldnames [])"

text \<open>The number of characters after the decimal point of a rendered number.\<close>

definition decimal_places :: "string \<Rightarrow> nat" where
  "decimal_places s = length (drop 1 (dropWhile (\<lambda>c. c \<noteq> CHR ''.'') s))"

subsection \<open>Example runs\<close>

definition empty_world :: world where
  "empty_world = \<lparr>fs = (\<lambda>d. []), stdout = [], export_calls = [], read_calls = []\<rparr>"

text \<open>Three submissions in a folder, a log file left in the output directory.\<close>

definition batch_world :: world where
  "batch_world =
     \<lparr>fs = (\<lambda>d. if d = ''subs''
                then [(''s1.par'', RegularFile), (''s2.par'', RegularFile), (''s3.par'', RegularFile)]
                else if d = ''out'' then [(''export.log'', RegularFile)] else []),
      stdout = [], export_calls = [], read_calls = []\<rparr>"

text \<open>An export service whose first two calls fail and whose later calls succeed.\<close>

definition flaky_env :: env where
  "flaky_env =
     \<lparr>solid_edge = (\<lambda>k p. if k < 2 then SaveAsRaises else Saved),
      step_reader = (\<lambda>k p. RetDone 1000 600 (1, 2, 3))\<rparr>"

text \<open>An export service whose very first call fails.\<close>

definition first_fails_env :: env where
  "first_fails_env =
     \<lparr>solid_edge = (\<lambda>k p. if k = 0 then OpenRaises else Saved),
      step_reader = (\<lambda>k p. RetDone 1000 600 (1, 2, 3))\<rparr>"

text \<open>The export of the second submission always fails.\<close>

definition second_fails_env :: env where
  "second_fails_env =
     \<lparr>solid_edge = (\<lambda>k p. if p = (''subs'', ''s2.par'') then OpenRaises else Saved),
      step_reader = (\<lambda>k p. RetDone 1000 600 (1, 2, 3))\<rparr>"

text \<open>The STEP file of the second submission cannot be read.\<close>

definition second_unreadable_env :: env where
  "second_unreadable_env =
     \<lparr>solid_edge = (\<lambda>k p. Saved),
      step_reader = (\<lambda>k p. if p = (''out'', ''s2.step'') then RetNotDone
                            else RetDone 1000 600 (1, 2, 3))\<rparr>"













definition example_result :: "string \<Rightarrow> result" where
  "example_result student_id =
     \<lparr>StudentID = student_id, Volume = 3001 / 3, SurfaceArea = 600,
      CenterOfGravity = (1, - 1 / 3, 0), VolumeMark = 5, SurfaceAreaMark = 4, CGMark = 10 / 3\<rparr>"

section \<open>Properties of the mark calculator\<close>

lemma percentage_nonzero:
  "e \<noteq> 0 \<Longrightarrow> percentage v e = Inr (\<bar>(v - e) / e\<bar> * 100)"
  by (simp add: percentage_def py_truediv_def)

lemma calculate_mark_chain:
  "e \<noteq> 0 \<Longrightarrow>
   calculate_mark (Some v) (Some e) =
     Inr (let p = \<bar>(v - e) / e\<bar> * 100 in
          if p \<le> 1 then 5 else if p \<le> 20 then 4 else if p \<le> 40 then 3
          else if p \<le> 60 then 2 else if p \<le> 80 then 1 else 0)"
  by (simp add: percentage_nonzero Let_def)

lemma spec_mark_of_error_chain:
  "spec_mark_of_error p =
     (if p \<le> 1 then 5 else if p \<le> 20 then 4 else if p \<le> 40 then 3
      else if p \<le> 60 then 2 else if p \<le> 80 then 1 else 0)"
  by (simp add: spec_mark_of_error_def bucket_table_def)

lemma calculate_mark_total: "\<exists>m. calculate_mark a b = Inr m"
proof (cases a)
  case None
  then show ?thesis by simp
next
  case (Some v)
  show ?thesis
  proof (cases b)
    case None
    with Some show ?thesis by simp
  next
    case (Some e)
    with \<open>a = Some v\<close> show ?thesis
      by (cases "e = 0") (simp_all add: percentage_nonzero)
  qed
qed

lemma calculate_mark_range:
  "calculate_mark a b = Inr m \<Longrightarrow> 0 \<le> m \<and> m \<le> 5"
proof (cases a)
  case None
  assume "calculate_mark a b = Inr m"
  with None show ?thesis by simp
next
  case (Some v)
  assume h: "calculate_mark a b = Inr m"
  show ?thesis
  proof (cases b)
    case None
    with Some h show ?thesis by simp
  next
    case (Some e)
    with \<open>a = Some v\<close> h show ?thesis
      by (cases "e = 0") (auto simp: percentage_nonzero split: if_splits)
  qed
qed


lemma mark_of_percentage_mono:
  fixes p1 p2 :: rat
  assumes "p1 \<le> p2"
  shows "spec_mark_of_error p2 \<le> spec_mark_of_error p1"
  using assms by (simp add: spec_mark_of_error_chain split: if_splits)

lemma spec_mark_of_error_range: "spec_mark_of_error p \<in> {0, 1, 2, 3, 4, 5}"
  by (simp add: spec_mark_of_error_chain)

lemma calculate_mark_percentage:
  "e \<noteq> 0 \<Longrightarrow> percentage v e = Inr p \<Longrightarrow>
   calculate_mark (Some v) (Some e) = Inr (spec_mark_of_error p)"
  by (simp add: spec_mark_of_error_chain)

lemma axis_mark_val:
  "\<exists>m. calculate_mark (Some c) (Some e) = Inr m \<and> axis_mark c e = Inr (of_int m / 3)
       \<and> 0 \<le> m \<and> m \<le> 5"
proof -
  obtain m where m: "calculate_mark (Some c) (Some e) = Inr m"
    using calculate_mark_total by blast
  with calculate_mark_range [OF m] show ?thesis by (simp add: axis_mark_def)
qed

lemma thirds_le_5:
  fixes m1 m2 m3 :: int
  assumes "m1 \<le> 5" "m2 \<le> 5" "m3 \<le> 5"
  shows "(of_int m1 / 3 + of_int m2 / 3 + of_int m3 / 3 :: rat) \<le> 5"
proof -
  from assms have "(of_int m1 :: rat) \<le> 5" "(of_int m2 :: rat) \<le> 5" "(of_int m3 :: rat) \<le> 5"
    by simp_all
  then show ?thesis by linarith
qed

lemma thirds_ge_0:
  fixes m1 m2 m3 :: int
  assumes "0 \<le> m1" "0 \<le> m2" "0 \<le> m3"
  shows "(0::rat) \<le> of_int m1 / 3 + of_int m2 / 3 + of_int m3 / 3"
  using assms by simp

text \<open>
  C1, as the specification states it, fails: the code takes the absolute value of the
  whole quotient, the specification's formula divides the absolute difference by the
  signed expected value. For a measured 5 against an expected -10 (a centre-of-gravity
  coordinate) the code's error is 150 and the mark 0, while the formula gives -150, which
  the table maps to 5.
\<close>

theorem calculate_mark_negative_expected_counterexample:
  "calculate_mark (Some 5) (Some (- 10)) = Inr 0
   \<and> spec_mark_of_error (spec_percentageError 5 (- 10)) = 5"
  by (simp add: percentage_nonzero spec_mark_of_error_chain spec_percentageError_def)

text \<open>
  C1, amended: for every non-null measured value and non-null expected value other than
  0, calculate_mark is the table's mark of the error
  \<open>|measured - expected| / |expected| * 100\<close>; for a positive expected value that is the
  specification's formula; mark(121, 100) = 3 and mark(200, 100) = 0.
\<close>

theorem calculate_mark_bucket_table:
  "(e \<noteq> 0 \<longrightarrow>
      calculate_mark (Some m) (Some e) = Inr (spec_mark_of_error (\<bar>m - e\<bar> / \<bar>e\<bar> * 100)))
   \<and> (0 < e \<longrightarrow>
      calculate_mark (Some m) (Some e) = Inr (spec_mark_of_error (spec_percentageError m e)))
   \<and> calculate_mark (Some 121) (Some 100) = Inr 3
   \<and> calculate_mark (Some 200) (Some 100) = Inr 0"
proof -
  have a: "calculate_mark (Some m) (Some e) = Inr (spec_mark_of_error (\<bar>m - e\<bar> / \<bar>e\<bar> * 100))"
    if "e \<noteq> 0"
    using that by (simp add: percentage_nonzero spec_mark_of_error_chain abs_divide)
  have b: "spec_percentageError m e = \<bar>m - e\<bar> / \<bar>e\<bar> * 100" if "0 < e"
    using that by (simp add: spec_percentageError_def)
  have c: "calculate_mark (Some 121) (Some 100) = Inr 3"
    by (simp add: percentage_nonzero)
  have d: "calculate_mark (Some 200) (Some 100) = Inr 0"
    by (simp add: percentage_nonzero)
  show ?thesis
  proof (intro conjI impI)
    assume "e \<noteq> 0"
    then show "calculate_mark (Some m) (Some e)
                 = Inr (spec_mark_of_error (\<bar>m - e\<bar> / \<bar>e\<bar> * 100))"
      by (rule a)
  next
    assume h: "0 < e"
    then have "e \<noteq> 0" by simp
    from a [OF this] b [OF h]
    show "calculate_mark (Some m) (Some e) = Inr (spec_mark_of_error (spec_percentageError m e))"
      by (simp only:)
  qed (rule c, rule d)
qed

theorem calculate_mark_bucket_table_witness:
  "(100::rat) \<noteq> 0 \<and> (0::rat) < 100
   \<and> calculate_mark (Some 121) (Some 100) = Inr (spec_mark_of_error 21)
   \<and> spec_percentageError 121 100 = 21"
  using calculate_mark_bucket_table [of 100 121] by (simp add: spec_percentageError_def)

text \<open>
  C3: calculate_mark returns 0 for an expected value of 0, for a null measured value and
  for a null expected value, whatever the other argument; on every pair of arguments it
  returns a mark, so it raises nothing, the division by zero included.
\<close>

theorem calculate_mark_null_or_zero:
  "calculate_mark x (Some 0) = Inr 0
   \<and> calculate_mark None y = Inr 0
   \<and> calculate_mark x None = Inr 0
   \<and> (\<exists>m. calculate_mark a b = Inr m)"
proof -
  have "calculate_mark x (Some 0) = Inr 0" by (cases x) simp_all
  moreover have "calculate_mark x None = Inr 0" by (cases x) simp_all
  ultimately show ?thesis using calculate_mark_total [of a b] by simp
qed

text \<open>
  C4, as the specification states it, fails for a negative expected value: with the
  specification's percentageError, \<open>|measured - expected| / expected * 100\<close>, a measured
  5 against -10 has the error -150 and the mark 0, a measured -10 against -10 has the
  larger error 0 and the larger mark 5.
\<close>

theorem calculate_mark_spec_error_counterexample:
  "spec_percentageError 5 (- 10) = - 150
   \<and> spec_percentageError (- 10) (- 10) = 0
   \<and> spec_percentageError 5 (- 10) < spec_percentageError (- 10) (- 10)
   \<and> calculate_mark (Some 5) (Some (- 10)) = Inr 0
   \<and> calculate_mark (Some (- 10)) (Some (- 10)) = Inr 5"
  by (simp add: percentage_nonzero spec_percentageError_def)

text \<open>
  C4, amended: for expected values other than 0 the mark is one of 0, 1, 2, 3, 4, 5, and
  it is non-increasing in the percentage error \<open>|measured - expected| / |expected| * 100\<close>
  that line 127 computes: of two calls the one with the larger error never has the larger
  mark. For positive expected values that error is the specification's percentageError.
\<close>

theorem calculate_mark_range_monotone:
  "e1 \<noteq> 0 \<Longrightarrow> e2 \<noteq> 0 \<Longrightarrow>
   \<exists>m1 m2.
     percentage v1 e1 = Inr (\<bar>v1 - e1\<bar> / \<bar>e1\<bar> * 100)
     \<and> percentage v2 e2 = Inr (\<bar>v2 - e2\<bar> / \<bar>e2\<bar> * 100)
     \<and> calculate_mark (Some v1) (Some e1) = Inr m1
     \<and> calculate_mark (Some v2) (Some e2) = Inr m2
     \<and> m1 \<in> {0, 1, 2, 3, 4, 5} \<and> m2 \<in> {0, 1, 2, 3, 4, 5}
     \<and> (\<bar>v1 - e1\<bar> / \<bar>e1\<bar> * 100 \<le> \<bar>v2 - e2\<bar> / \<bar>e2\<bar> * 100 \<longrightarrow> m2 \<le> m1)
     \<and> (0 < e1 \<and> 0 < e2 \<and> spec_percentageError v1 e1 \<le> spec_percentageError v2 e2
          \<longrightarrow> m2 \<le> m1)"
proof -
  assume e1: "e1 \<noteq> 0" and e2: "e2 \<noteq> 0"
  define p1 where "p1 = \<bar>v1 - e1\<bar> / \<bar>e1\<bar> * 100"
  define p2 where "p2 = \<bar>v2 - e2\<bar> / \<bar>e2\<bar> * 100"
  have q1: "percentage v1 e1 = Inr p1"
    unfolding p1_def using e1 by (simp add: percentage_nonzero abs_divide)
  have q2: "percentage v2 e2 = Inr p2"
    unfolding p2_def using e2 by (simp add: percentage_nonzero abs_divide)
  have m1: "calculate_mark (Some v1) (Some e1) = Inr (spec_mark_of_error p1)"
    using e1 q1 by (rule calculate_mark_percentage)
  have m2: "calculate_mark (Some v2) (Some e2) = Inr (spec_mark_of_error p2)"
    using e2 q2 by (rule calculate_mark_percentage)
  have mono: "p1 \<le> p2 \<longrightarrow> spec_mark_of_error p2 \<le> spec_mark_of_error p1"
    using mark_of_percentage_mono by blast
  have s1: "0 < e1 \<Longrightarrow> spec_percentageError v1 e1 = p1"
    by (simp add: spec_percentageError_def p1_def)
  have s2: "0 < e2 \<Longrightarrow> spec_percentageError v2 e2 = p2"
    by (simp add: spec_percentageError_def p2_def)
  have spec: "0 < e1 \<and> 0 < e2 \<and> spec_percentageError v1 e1 \<le> spec_percentageError v2 e2
      \<longrightarrow> spec_mark_of_error p2 \<le> spec_mark_of_error p1"
    using mono s1 s2 by auto
  from q1 q2 m1 m2 spec_mark_of_error_range [of p1] spec_mark_of_error_range [of p2] mono spec
  show ?thesis unfolding p1_def p2_def by blast
qed

theorem calculate_mark_range_monotone_witness:
  "(100::rat) \<noteq> 0 \<and> (0::rat) < 100
   \<and> percentage 100 100 = Inr 0 \<and> percentage 121 100 = Inr 21
   \<and> spec_percentageError 100 100 = 0 \<and> spec_percentageError 121 100 = 21
   \<and> calculate_mark (Some 100) (Some 100) = Inr 5
   \<and> calculate_mark (Some 121) (Some 100) = Inr 3"
  using calculate_mark_range_monotone [of 100 100 100 121]
  by (simp add: percentage_nonzero spec_percentageError_def)

text \<open>
  C5: the centre-of-gravity mark is the sum of the three axis marks, each divided by 3;
  each third is at most 5/3 and the sum lies between 0 and 5. For any three marks among
  0, 1, 2, 3, 4, 5 the sum of their thirds is at most 5.
\<close>

theorem cg_mark_bounded:
  "(\<exists>mx my mz.
      calculate_mark (Some x) (Some ex) = Inr mx
      \<and> calculate_mark (Some y) (Some ey) = Inr my
      \<and> calculate_mark (Some z) (Some ez) = Inr mz
      \<and> cg_mark (x, y, z) (Some (ex, ey, ez))
          = Inr (of_int mx / 3 + of_int my / 3 + of_int mz / 3)
      \<and> (of_int mx / 3 :: rat) \<le> 5 / 3 \<and> (of_int my / 3 :: rat) \<le> 5 / 3
      \<and> (of_int mz / 3 :: rat) \<le> 5 / 3
      \<and> (0::rat) \<le> of_int mx / 3 + of_int my / 3 + of_int mz / 3
      \<and> (of_int mx / 3 + of_int my / 3 + of_int mz / 3 :: rat) \<le> 5)
   \<and> (m1 \<in> {0, 1, 2, 3, 4, 5} \<and> m2 \<in> {0, 1, 2, 3, 4, 5} \<and> m3 \<in> {0, 1, 2, 3, 4, 5}
        \<longrightarrow> (of_int m1 / 3 + of_int m2 / 3 + of_int m3 / 3 :: rat) \<le> 5)"
proof (rule conjI)
  obtain mx where x: "calculate_mark (Some x) (Some ex) = Inr mx"
    "axis_mark x ex = Inr (of_int mx / 3)" "0 \<le> mx" "mx \<le> 5"
    using axis_mark_val by blast
  obtain my where y: "calculate_mark (Some y) (Some ey) = Inr my"
    "axis_mark y ey = Inr (of_int my / 3)" "0 \<le> my" "my \<le> 5"
    using axis_mark_val by blast
  obtain mz where z: "calculate_mark (Some z) (Some ez) = Inr mz"
    "axis_mark z ez = Inr (of_int mz / 3)" "0 \<le> mz" "mz \<le> 5"
    using axis_mark_val by blast
  have cg: "cg_mark (x, y, z) (Some (ex, ey, ez))
          = Inr (of_int mx / 3 + of_int my / 3 + of_int mz / 3)"
    by (simp add: cg_mark_def x(2) y(2) z(2))
  have bx: "(of_int mx / 3 :: rat) \<le> 5 / 3" using x(4) by simp
  have "by": "(of_int my / 3 :: rat) \<le> 5 / 3" using y(4) by simp
  have bz: "(of_int mz / 3 :: rat) \<le> 5 / 3" using z(4) by simp
  have lo: "(0::rat) \<le> of_int mx / 3 + of_int my / 3 + of_int mz / 3"
    using x(3) y(3) z(3) by (rule thirds_ge_0)
  have hi: "(of_int mx / 3 + of_int my / 3 + of_int mz / 3 :: rat) \<le> 5"
    using x(4) y(4) z(4) by (rule thirds_le_5)
  show "\<exists>mx my mz.
      calculate_mark (Some x) (Some ex) = Inr mx
      \<and> calculate_mark (Some y) (Some ey) = Inr my
      \<and> calculate_mark (Some z) (Some ez) = Inr mz
      \<and> cg_mark (x, y, z) (Some (ex, ey, ez))
          = Inr (of_int mx / 3 + of_int my / 3 + of_int mz / 3)
      \<and> (of_int mx / 3 :: rat) \<le> 5 / 3 \<and> (of_int my / 3 :: rat) \<le> 5 / 3
      \<and> (of_int mz / 3 :: rat) \<le> 5 / 3
      \<and> (0::rat) \<le> of_int mx / 3 + of_int my / 3 + of_int mz / 3
      \<and> (of_int mx / 3 + of_int my / 3 + of_int mz / 3 :: rat) \<le> 5"
    apply (rule exI [of _ mx], rule exI [of _ my], rule exI [of _ mz])
    apply (intro conjI)
    apply (rule x(1), rule y(1), rule z(1), rule cg, rule bx, rule "by", rule bz, rule lo, rule hi)
    done
next
  show "m1 \<in> {0, 1, 2, 3, 4, 5} \<and> m2 \<in> {0, 1, 2, 3, 4, 5} \<and> m3 \<in> {0, 1, 2, 3, 4, 5}
        \<longrightarrow> (of_int m1 / 3 + of_int m2 / 3 + of_int m3 / 3 :: rat) \<le> 5"
  proof
    assume h: "m1 \<in> {0, 1, 2, 3, 4, 5} \<and> m2 \<in> {0, 1, 2, 3, 4, 5} \<and> m3 \<in> {0, 1, 2, 3, 4, 5}"
    then have "m1 \<le> 5" "m2 \<le> 5" "m3 \<le> 5" by auto
    then show "(of_int m1 / 3 + of_int m2 / 3 + of_int m3 / 3 :: rat) \<le> 5"
      by (rule thirds_le_5)
  qed
qed

theorem cg_mark_bounded_witness:
  "(5::int) \<in> {0, 1, 2, 3, 4, 5}
   \<and> (of_int 5 / 3 + of_int 5 / 3 + of_int 5 / 3 :: rat) \<le> 5
   \<and> cg_mark (1, 2, 3) (Some (1, 2, 3)) = Inr 5"
  using cg_mark_bounded [of 1 1 2 2 3 3 5 5 5]
  by (simp add: cg_mark_def axis_mark_def percentage_nonzero)

section \<open>Properties of the world model\<close>

subsection \<open>Printing, files and the export service\<close>

lemma py_print_fields [simp]:
  "fs (py_print m w) = fs w"
  "stdout (py_print m w) = stdout w @ [m]"
  "export_calls (py_print m w) = export_calls w"
  "read_calls (py_print m w) = read_calls w"
  by (simp_all add: py_print_def)

lemma save_file_fields [simp]:
  "fs (save_file p w) = (fs w)(fst p := fs w (fst p) @ [(snd p, RegularFile)])"
  "stdout (save_file p w) = stdout w"
  "export_calls (save_file p w) = export_calls w"
  "read_calls (save_file p w) = read_calls w"
  by (simp_all add: save_file_def)

lemma os_path_isfile_py_print [simp]:
  "os_path_isfile p (py_print m w) = os_path_isfile p w"
  by (simp add: os_path_isfile_def)

lemma guarded_remove_Inr:
  "\<exists>w'. (if os_path_isfile p w then os_remove p w else Inr w) = Inr w'
        \<and> fs w' = (fs w)(fst p := removeAll (snd p, RegularFile) (fs w (fst p)))
        \<and> stdout w' = stdout w \<and> export_calls w' = export_calls w
        \<and> read_calls w' = read_calls w"
proof (cases "os_path_isfile p w")
  case True
  then show ?thesis by (simp add: os_remove_def)
next
  case False
  then have "removeAll (snd p, RegularFile) (fs w (fst p)) = fs w (fst p)"
    by (simp add: os_path_isfile_def)
  with False show ?thesis by simp
qed

text \<open>What one call of export_to_step does, branch by branch.\<close>

lemma export_to_step_cases:
  assumes "export_to_step E p d w = (r, w')"
  obtains
    (failed) w0 :: world where "r = None"
      "fs w0 = fs w \<or> fs w0 = (fs w)(fst (step_file_path_of p d) :=
          removeAll (snd (step_file_path_of p d), RegularFile) (fs w (fst (step_file_path_of p d))))"
      "fs w' = fs w0" "stdout w' = stdout w @ [ErrorExporting p]"
      "export_calls w' = export_calls w @ [(p, None)]" "read_calls w' = read_calls w"
  | (saved) "r = Some (step_file_path_of p d)"
      "solid_edge E (length (export_calls w)) p = Saved"
      "fs w' = (fs w)(fst (step_file_path_of p d) :=
          removeAll (snd (step_file_path_of p d), RegularFile) (fs w (fst (step_file_path_of p d)))
            @ [(snd (step_file_path_of p d), RegularFile)])"
      "stdout w' = stdout w"
      "export_calls w' = export_calls w @ [(p, Some (step_file_path_of p d))]"
      "read_calls w' = read_calls w"
proof -
  define sp where "sp = step_file_path_of p d"
  obtain w0 where w0:
    "(if os_path_isfile sp w then os_remove sp w else Inr w) = Inr w0"
    "fs w0 = (fs w)(fst sp := removeAll (snd sp, RegularFile) (fs w (fst sp)))"
    "stdout w0 = stdout w" "export_calls w0 = export_calls w" "read_calls w0 = read_calls w"
    using guarded_remove_Inr by blast
  show thesis
  proof (cases "solid_edge E (length (export_calls w)) p")
    case OpenRaises
    with assms have "r = None" "w' = snd (export_return p None (py_print (ErrorExporting p) w))"
      by (auto simp: export_to_step_def export_return_def)
    then show ?thesis
      by (intro failed [of w]) (simp_all add: export_return_def)
  next
    case SaveAsRaises
    with assms w0(1) have "r = None"
      "w' = snd (export_return p None (py_print (ErrorExporting p) w0))"
      by (auto simp: export_to_step_def export_return_def Let_def sp_def [symmetric])
    with w0 show ?thesis
      by (intro failed [of w0]) (simp_all add: export_return_def sp_def)
  next
    case Saved
    show ?thesis
    proof (cases "entry_exists sp w0")
      case True
      with Saved assms w0(1) have "r = None"
        "w' = snd (export_return p None (py_print (ErrorExporting p) w0))"
        by (auto simp: export_to_step_def export_return_def Let_def sp_def [symmetric])
      with w0 show ?thesis
        by (intro failed [of w0]) (simp_all add: export_return_def sp_def)
    next
      case False
      with Saved assms w0(1) have "r = Some sp"
        "w' = snd (export_return p (Some sp) (save_file sp w0))"
        by (auto simp: export_to_step_def export_return_def Let_def sp_def [symmetric])
      with w0 Saved show ?thesis
        by (intro saved) (simp_all add: export_return_def sp_def)
    qed
  qed
qed


lemma export_to_step_calls:
  assumes "export_to_step E p d w = (r, w')"
  shows "export_calls w' = export_calls w @ [(p, r)]"
  using assms by (cases rule: export_to_step_cases) simp_all

lemma export_to_step_read_calls:
  assumes "export_to_step E p d w = (r, w')"
  shows "read_calls w' = read_calls w"
  using assms by (cases rule: export_to_step_cases) simp_all

lemma export_to_step_stdout:
  assumes "export_to_step E p d w = (r, w')" and "\<And>q. \<not> P (ErrorExporting q)"
  shows "filter P (stdout w') = filter P (stdout w)"
  using assms(1) by (cases rule: export_to_step_cases) (simp_all add: assms(2))

lemma fs_update_member:
  assumes "f' = f(a := removeAll y (f a) @ ys)"
    and "d' = a \<Longrightarrow> x \<noteq> y" and "d' = a \<Longrightarrow> x \<notin> set ys"
  shows "(x \<in> set (f' d')) = (x \<in> set (f d'))"
proof (cases "d' = a")
  case True
  with assms show ?thesis by simp
next
  case False
  with assms(1) show ?thesis by simp
qed

lemma export_to_step_fs:
  assumes "export_to_step E p d w = (r, w')" and "(d', fst x) \<noteq> step_file_path_of p d"
  shows "(x \<in> set (fs w' d')) = (x \<in> set (fs w d'))"
proof -
  let ?sp = "step_file_path_of p d"
  have neq: "d' = fst ?sp \<Longrightarrow> x \<noteq> (snd ?sp, RegularFile)"
    using assms(2) by (cases ?sp) auto
  from assms(1) show ?thesis
  proof (cases rule: export_to_step_cases)
    case (failed w0)
    from failed(2) show ?thesis
    proof
      assume "fs w0 = fs w"
      with failed(3) show ?thesis by simp
    next
      assume "fs w0 = (fs w)(fst ?sp := removeAll (snd ?sp, RegularFile) (fs w (fst ?sp)))"
      with failed(3)
      have "fs w' = (fs w)(fst ?sp := removeAll (snd ?sp, RegularFile) (fs w (fst ?sp)) @ [])"
        by simp
      then show ?thesis
        using neq fs_update_member [of "fs w'" "fs w" "fst ?sp" "(snd ?sp, RegularFile)" "[]" d' x]
        by auto
    qed
  next
    case saved
    from saved(3) show ?thesis
      using neq fs_update_member [of "fs w'" "fs w" "fst ?sp" "(snd ?sp, RegularFile)"
          "[(snd ?sp, RegularFile)]" d' x]
      by auto
  qed
qed

lemma export_to_step_Some:
  assumes "export_to_step E p d w = (Some sp, w')"
  shows "sp = step_file_path_of p d" and "os_path_isfile sp w'"
proof -
  from assms show "sp = step_file_path_of p d"
    by (cases rule: export_to_step_cases) simp_all
  from assms show "os_path_isfile sp w'"
    by (cases rule: export_to_step_cases) (simp_all add: os_path_isfile_def)
qed

lemma export_retry_trace:
  "export_retry E n p d w = (r, w') \<Longrightarrow>
   (r = None \<longrightarrow> export_calls w' = export_calls w @ replicate n (p, None))
   \<and> (\<forall>s. r = Some s \<longrightarrow>
        (\<exists>k<n. export_calls w' = export_calls w @ replicate k (p, None) @ [(p, Some s)]))"
proof (induction n arbitrary: w)
  case 0
  then show ?case by simp
next
  case (Suc n)
  obtain r1 w1 where e: "export_to_step E p d w = (r1, w1)"
    by (cases "export_to_step E p d w")
  have c1: "export_calls w1 = export_calls w @ [(p, r1)]"
    using e by (rule export_to_step_calls)
  show ?case
  proof (cases r1)
    case None
    with Suc.prems e have rec: "export_retry E n p d w1 = (r, w')" by simp
    have ih: "(r = None \<longrightarrow> export_calls w' = export_calls w1 @ replicate n (p, None))
      \<and> (\<forall>s. r = Some s \<longrightarrow>
        (\<exists>k<n. export_calls w' = export_calls w1 @ replicate k (p, None) @ [(p, Some s)]))"
      by (rule Suc.IH [OF rec])
    show ?thesis
    proof (intro conjI impI allI)
      assume "r = None"
      with ih c1 None show "export_calls w' = export_calls w @ replicate (Suc n) (p, None)"
        by simp
    next
      fix s assume "r = Some s"
      with ih obtain k where k: "k < n"
        "export_calls w' = export_calls w1 @ replicate k (p, None) @ [(p, Some s)]"
        by blast
      from k c1 None
      have "export_calls w' = export_calls w @ replicate (Suc k) (p, None) @ [(p, Some s)]"
        by simp
      with k(1)
      show "\<exists>k<Suc n. export_calls w' = export_calls w @ replicate k (p, None) @ [(p, Some s)]"
        by (intro exI [of _ "Suc k"]) simp
    qed
  next
    case (Some s)
    with Suc.prems e have "r = Some s" "w' = w1" by simp_all
    with c1 Some show ?thesis by (auto intro: exI [of _ 0])
  qed
qed

lemma export_retry_length:
  assumes "export_retry E n p d w = (r, w')"
  shows "length (export_calls w') \<le> length (export_calls w) + n"
proof (cases r)
  case None
  with export_retry_trace [OF assms] show ?thesis by simp
next
  case (Some s)
  with export_retry_trace [OF assms] obtain k where "k < n"
    "export_calls w' = export_calls w @ replicate k (p, None) @ [(p, Some s)]" by blast
  then show ?thesis by simp
qed

lemma export_retry_frame:
  assumes "export_retry E n p d w = (r, w')"
  shows "read_calls w' = read_calls w"
    and "(\<And>q. \<not> P (ErrorExporting q)) \<Longrightarrow> filter P (stdout w') = filter P (stdout w)"
    and "(d', fst x) \<noteq> step_file_path_of p d \<Longrightarrow> (x \<in> set (fs w' d')) = (x \<in> set (fs w d'))"
    and "\<And>sp. r = Some sp \<Longrightarrow> sp = step_file_path_of p d \<and> os_path_isfile sp w'"
  using assms
proof (induction n arbitrary: w)
  case 0
  { case 1 then show ?case by simp }
  { case 2 then show ?case by simp }
  { case 3 then show ?case by simp }
  { case 4 then show ?case by simp }
next
  case (Suc n)
  { case 1
    obtain r1 w1 where e: "export_to_step E p d w = (r1, w1)"
      by (cases "export_to_step E p d w")
    show ?case
    proof (cases r1)
      case None
      with 1 e have "export_retry E n p d w1 = (r, w')" by simp
      from Suc.IH(1) [OF this] export_to_step_read_calls [OF e] show ?thesis by simp
    next
      case (Some s)
      with 1 e have "w' = w1" by simp
      with export_to_step_read_calls [OF e] show ?thesis by simp
    qed }
  { case 2
    obtain r1 w1 where e: "export_to_step E p d w = (r1, w1)"
      by (cases "export_to_step E p d w")
    have s1: "filter P (stdout w1) = filter P (stdout w)"
      using e 2(1) by (rule export_to_step_stdout)
    show ?case
    proof (cases r1)
      case None
      with 2 e have "export_retry E n p d w1 = (r, w')" by simp
      from Suc.IH(2) [OF 2(1) this] s1 show ?thesis by simp
    next
      case (Some s)
      with 2 e have "w' = w1" by simp
      with s1 show ?thesis by simp
    qed }
  { case 3
    obtain r1 w1 where e: "export_to_step E p d w = (r1, w1)"
      by (cases "export_to_step E p d w")
    have s1: "(x \<in> set (fs w1 d')) = (x \<in> set (fs w d'))"
      using e 3(1) by (rule export_to_step_fs)
    show ?case
    proof (cases r1)
      case None
      with 3 e have "export_retry E n p d w1 = (r, w')" by simp
      from Suc.IH(3) [OF 3(1) this] s1 show ?thesis by simp
    next
      case (Some s)
      with 3 e have "w' = w1" by simp
      with s1 show ?thesis by simp
    qed }
  { case 4
    obtain r1 w1 where e: "export_to_step E p d w = (r1, w1)"
      by (cases "export_to_step E p d w")
    show ?case
    proof (cases r1)
      case None
      with 4 e have "export_retry E n p d w1 = (r, w')" by simp
      from Suc.IH(4) [OF 4(1) this] show ?thesis .
    next
      case (Some s)
      with 4 e have "w' = w1" "s = sp" by simp_all
      with export_to_step_Some [of E p d w sp w1] e Some show ?thesis by simp
    qed }
qed

subsection \<open>Reading properties and cleaning up\<close>

lemma calculate_properties_cases:
  assumes "calculate_properties E sp w = (props, w')"
  obtains
    (failed) m where "props = (None, None, None)"
      "m = ErrorReading sp \<or> m = ErrorProcessing sp"
      "stdout w' = stdout w @ [m]" "fs w' = fs w"
      "export_calls w' = export_calls w" "read_calls w' = read_calls w @ [sp]"
  | (read) volume surface_area cg where
      "props = (Some volume, Some surface_area, Some cg)"
      "step_reader E (length (read_calls w)) sp = RetDone volume surface_area cg"
      "stdout w' = stdout w" "fs w' = fs w"
      "export_calls w' = export_calls w" "read_calls w' = read_calls w @ [sp]"
proof (cases "step_reader E (length (read_calls w)) sp")
  case RetNotDone
  with assms show ?thesis
    by (intro failed [of "ErrorReading sp"]) (auto simp: calculate_properties_def Let_def)
next
  case ReadRaises
  with assms show ?thesis
    by (intro failed [of "ErrorProcessing sp"]) (auto simp: calculate_properties_def Let_def)
next
  case (RetDone volume surface_area cg)
  with assms show ?thesis
    by (intro read [of volume surface_area cg]) (auto simp: calculate_properties_def Let_def)
qed



lemma clean_up_file_frame:
  shows "export_calls (clean_up_file od file w) = export_calls w"
    and "read_calls (clean_up_file od file w) = read_calls w"
    and "(\<And>q. \<not> P (DeletedFile q)) \<Longrightarrow> (\<And>q. \<not> P (ErrorDeleting q)) \<Longrightarrow>
         filter P (stdout (clean_up_file od file w)) = filter P (stdout w)"
    and "\<not> (endswith (fst x) ''.txt'' \<or> endswith (fst x) ''.log'') \<Longrightarrow>
         (x \<in> set (fs (clean_up_file od file w) d')) = (x \<in> set (fs w d'))"
  by (auto simp: clean_up_file_def os_remove_def os_path_join_def Let_def)

lemma clean_up_fold_frame:
  shows "export_calls (fold (clean_up_file od) files w) = export_calls w"
    and "read_calls (fold (clean_up_file od) files w) = read_calls w"
    and "(\<And>q. \<not> P (DeletedFile q)) \<Longrightarrow> (\<And>q. \<not> P (ErrorDeleting q)) \<Longrightarrow>
         filter P (stdout (fold (clean_up_file od) files w)) = filter P (stdout w)"
    and "\<not> (endswith (fst x) ''.txt'' \<or> endswith (fst x) ''.log'') \<Longrightarrow>
         (x \<in> set (fs (fold (clean_up_file od) files w) d')) = (x \<in> set (fs w d'))"
proof (induction files arbitrary: w)
  case Nil
  { case 1 show ?case by simp }
  { case 2 show ?case by simp }
  { case 3 show ?case by simp }
  { case 4 show ?case by simp }
next
  case (Cons name names)
  { case 1 show ?case by (simp add: Cons.IH(1) clean_up_file_frame(1)) }
  { case 2 show ?case by (simp add: Cons.IH(2) clean_up_file_frame(2)) }
  { case 3 then show ?case by (simp add: Cons.IH(3) clean_up_file_frame(3)) }
  { case 4 then show ?case by (simp add: Cons.IH(4) clean_up_file_frame(4)) }
qed

lemma clean_up_files_frame:
  shows "export_calls (clean_up_files od w) = export_calls w"
    and "read_calls (clean_up_files od w) = read_calls w"
    and "(\<And>q. \<not> P (DeletedFile q)) \<Longrightarrow> (\<And>q. \<not> P (ErrorDeleting q)) \<Longrightarrow>
         filter P (stdout (clean_up_files od w)) = filter P (stdout w)"
    and "\<not> (endswith (fst x) ''.txt'' \<or> endswith (fst x) ''.log'') \<Longrightarrow>
         (x \<in> set (fs (clean_up_files od w) d')) = (x \<in> set (fs w d'))"
  unfolding clean_up_files_def by (rule clean_up_fold_frame; assumption)+

subsection \<open>One iteration and the whole loop\<close>

lemma cg_mark_Some:
  "\<exists>m. cg_mark cg (Some ecg) = Inr m \<and> 0 \<le> m \<and> m \<le> 5"
proof -
  obtain x y z where cg: "cg = (x, y, z)" by (cases cg)
  obtain ex ey ez where ecg: "ecg = (ex, ey, ez)" by (cases ecg)
  obtain mx where x: "axis_mark x ex = Inr (of_int mx / 3)" "0 \<le> mx" "mx \<le> 5"
    using axis_mark_val by blast
  obtain my where y: "axis_mark y ey = Inr (of_int my / 3)" "0 \<le> my" "my \<le> 5"
    using axis_mark_val by blast
  obtain mz where z: "axis_mark z ez = Inr (of_int mz / 3)" "0 \<le> mz" "mz \<le> 5"
    using axis_mark_val by blast
  have "cg_mark cg (Some ecg) = Inr (of_int mx / 3 + of_int my / 3 + of_int mz / 3)"
    by (simp add: cg_mark_def cg ecg x(1) y(1) z(1))
  moreover have "(0::rat) \<le> of_int mx / 3 + of_int my / 3 + of_int mz / 3"
    using x(2) y(2) z(2) by (rule thirds_ge_0)
  moreover have "(of_int mx / 3 + of_int my / 3 + of_int mz / 3 :: rat) \<le> 5"
    using x(3) y(3) z(3) by (rule thirds_le_5)
  ultimately show ?thesis by blast
qed

text \<open>The four ways through one iteration of the loop.\<close>

lemma submission_body_cases:
  assumes "submission_body E sf od ev es ecg tot f (rs, n, w) = res"
  obtains
    (other) "\<not> endswith f ''.par''" "res = Inr (rs, n, w)"
  | (export_failed) w1 where "endswith f ''.par''"
      "export_retry E retry_count (os_path_join sf f) od w = (None, w1)"
      "res = Inr (rs, n, py_print (FailedToExport f retry_count) w1)"
  | (read_failed) sp w1 w2 where "endswith f ''.par''"
      "export_retry E retry_count (os_path_join sf f) od w = (Some sp, w1)"
      "calculate_properties E sp w1 = ((None, None, None), w2)"
      "res = Inr (rs, n, py_print (ErrorCalculating f) w2)"
  | (no_expected_cg) sp w1 w2 volume surface_area cg where "endswith f ''.par''"
      "export_retry E retry_count (os_path_join sf f) od w = (Some sp, w1)"
      "calculate_properties E sp w1 = ((Some volume, Some surface_area, Some cg), w2)"
      "ecg = None" "res = Inl TypeError"
  | (marked) sp w1 w2 volume surface_area cg c r w3 where "endswith f ''.par''"
      "export_retry E retry_count (os_path_join sf f) od w = (Some sp, w1)"
      "calculate_properties E sp w1 = ((Some volume, Some surface_area, Some cg), w2)"
      "ecg = Some c"
      "res = Inr (rs @ [r], n + 1, py_print (Processed (n + 1) tot) w3)"
      "StudentID r = fst (os_path_splitext f)"
      "Volume r = volume" "SurfaceArea r = surface_area" "CenterOfGravity r = cg"
      "calculate_mark (Some volume) ev = Inr (VolumeMark r)"
      "calculate_mark (Some surface_area) es = Inr (SurfaceAreaMark r)"
      "cg_mark cg ecg = Inr (CGMark r)"
      "fs w3 = (fs w2)(fst sp := removeAll (snd sp, RegularFile) (fs w2 (fst sp)))"
      "stdout w3 = stdout w2" "export_calls w3 = export_calls w2" "read_calls w3 = read_calls w2"
proof (cases "endswith f ''.par''")
  case False
  with assms have "res = Inr (rs, n, w)" by (simp add: submission_body_def)
  with False show ?thesis by (rule other)
next
  case par: True
  obtain r1 w1 where er: "export_retry E retry_count (os_path_join sf f) od w = (r1, w1)"
    by (cases "export_retry E retry_count (os_path_join sf f) od w")
  show ?thesis
  proof (cases r1)
    case None
    with assms par er have "res = Inr (rs, n, py_print (FailedToExport f retry_count) w1)"
      by (simp add: submission_body_def)
    with par er None show ?thesis by (intro export_failed [of w1]) simp_all
  next
    case (Some sp)
    obtain props w2 where cp: "calculate_properties E sp w1 = (props, w2)"
      by (cases "calculate_properties E sp w1")
    from cp show ?thesis
    proof (cases rule: calculate_properties_cases)
      case (failed m)
      with assms par er Some cp have "res = Inr (rs, n, py_print (ErrorCalculating f) w2)"
        by (simp add: submission_body_def)
      with par er Some cp failed(1) show ?thesis by (intro read_failed [of sp w1 w2]) simp_all
    next
      case (read volume surface_area cg)
      obtain vm where vm: "calculate_mark (Some volume) ev = Inr vm"
        using calculate_mark_total by blast
      obtain sm where sm: "calculate_mark (Some surface_area) es = Inr sm"
        using calculate_mark_total by blast
      show ?thesis
      proof (cases ecg)
        case None
        then have "cg_mark cg ecg = Inl TypeError" by (simp add: cg_mark_def)
        with assms par er Some cp read(1) vm sm have "res = Inl TypeError"
          by (simp add: submission_body_def)
        with par er Some cp read(1) None show ?thesis
          by (intro no_expected_cg [of sp w1 volume surface_area cg w2]) simp_all
      next
        case ecg: (Some c)
        obtain cm where cm: "cg_mark cg ecg = Inr cm"
          using cg_mark_Some [of cg c] ecg by blast
        obtain w3 where w3:
          "(if os_path_isfile sp w2 then os_remove sp w2 else Inr w2) = Inr w3"
          "fs w3 = (fs w2)(fst sp := removeAll (snd sp, RegularFile) (fs w2 (fst sp)))"
          "stdout w3 = stdout w2" "export_calls w3 = export_calls w2"
          "read_calls w3 = read_calls w2"
          using guarded_remove_Inr by blast
        define r where "r = \<lparr>StudentID = fst (os_path_splitext f), Volume = volume,
          SurfaceArea = surface_area, CenterOfGravity = cg, VolumeMark = vm,
          SurfaceAreaMark = sm, CGMark = cm\<rparr>"
        from assms par er Some cp read(1) vm sm cm w3(1)
        have "res = Inr (rs @ [r], n + 1, py_print (Processed (n + 1) tot) w3)"
          by (simp add: submission_body_def r_def)
        with par er Some cp read(1) ecg vm sm cm w3 show ?thesis
          by (intro marked [of sp w1 volume surface_area cg w2 c r w3]) (simp_all add: r_def)
      qed
    qed
  qed
qed

lemma is_skip_simps [simp]:
  "\<not> is_skip (ErrorExporting q)" "\<not> is_skip (ErrorReading q)" "\<not> is_skip (ErrorProcessing q)"
  "\<not> is_skip (DeletedFile q)" "\<not> is_skip (ErrorDeleting q)"
  "is_skip (FailedToExport f k)" "is_skip (ErrorCalculating f)" "\<not> is_skip (Processed i j)"
  by (simp_all add: is_skip_def)

lemma is_progress_simps [simp]:
  "\<not> is_progress (ErrorExporting q)" "\<not> is_progress (ErrorReading q)"
  "\<not> is_progress (ErrorProcessing q)"
  "\<not> is_progress (DeletedFile q)" "\<not> is_progress (ErrorDeleting q)"
  "\<not> is_progress (FailedToExport f k)" "\<not> is_progress (ErrorCalculating f)"
  "is_progress (Processed i j)"
  by (simp_all add: is_progress_def)

lemma calculate_properties_quiet:
  assumes "calculate_properties E sp w = (props, w')"
  shows "filter is_skip (stdout w') = filter is_skip (stdout w)"
    and "filter is_progress (stdout w') = filter is_progress (stdout w)"
    and "export_calls w' = export_calls w"
    and "fs w' = fs w"
proof -
  from assms show "filter is_skip (stdout w') = filter is_skip (stdout w)"
    by (cases rule: calculate_properties_cases) auto
  from assms show "filter is_progress (stdout w') = filter is_progress (stdout w)"
    by (cases rule: calculate_properties_cases) auto
  from assms show "export_calls w' = export_calls w"
    by (cases rule: calculate_properties_cases) auto
  from assms show "fs w' = fs w"
    by (cases rule: calculate_properties_cases) auto
qed

lemma export_retry_quiet:
  assumes "export_retry E k p d w = (r, w')"
  shows "filter is_skip (stdout w') = filter is_skip (stdout w)"
    and "filter is_progress (stdout w') = filter is_progress (stdout w)"
  using export_retry_frame(2) [OF assms, of is_skip] export_retry_frame(2) [OF assms, of is_progress]
  by simp_all

text \<open>
  One iteration, with the expected centre of gravity present: it raises nothing, appends
  at most one result, and accounts for a submission by a result and a progress line or by
  a skip diagnostic.
\<close>

lemma submission_body_step:
  "\<exists>new w'.
     submission_body E sf od ev es (Some c) tot f (rs, n, w) = Inr (rs @ new, n + length new, w')
     \<and> subseq (map StudentID new)
          (map (\<lambda>f. fst (os_path_splitext f)) (filter (\<lambda>f. endswith f ''.par'') [f]))
     \<and> length new + length (filter is_skip (stdout w'))
         = length (filter is_skip (stdout w)) + length (filter (\<lambda>f. endswith f ''.par'') [f])
     \<and> filter is_progress (stdout w')
         = filter is_progress (stdout w) @ map (\<lambda>i. Processed i tot) [n + 1 ..< n + length new + 1]
     \<and> length (export_calls w')
         \<le> length (export_calls w) + retry_count * length (filter (\<lambda>f. endswith f ''.par'') [f])"
proof -
  obtain res where res: "submission_body E sf od ev es (Some c) tot f (rs, n, w) = res" by simp
  from res show ?thesis
  proof (cases rule: submission_body_cases)
    case other
    with res show ?thesis by (intro exI [of _ "[]"] exI [of _ w]) simp
  next
    case (export_failed w1)
    from export_retry_quiet [OF export_failed(2)] export_retry_length [OF export_failed(2)]
      export_failed(1,3) res
    show ?thesis
      by (intro exI [of _ "[]"] exI [of _ "py_print (FailedToExport f retry_count) w1"]) simp
  next
    case (read_failed sp w1 w2)
    from export_retry_quiet [OF read_failed(2)] export_retry_length [OF read_failed(2)]
      calculate_properties_quiet [OF read_failed(3)] read_failed(1,4) res
    show ?thesis
      by (intro exI [of _ "[]"] exI [of _ "py_print (ErrorCalculating f) w2"]) simp
  next
    case (no_expected_cg sp w1 w2 volume surface_area cg)
    then show ?thesis by simp
  next
    case (marked sp w1 w2 volume surface_area cg c' r w3)
    from export_retry_quiet [OF marked(2)] export_retry_length [OF marked(2)]
      calculate_properties_quiet [OF marked(3)] marked(1,5,6,14,15) res
    show ?thesis
      by (intro exI [of _ "[r]"] exI [of _ "py_print (Processed (n + 1) tot) w3"]) simp
  qed
qed

lemma submissions_loop_invariant:
  "\<exists>new w'.
     submissions_loop E sf od ev es (Some c) tot names (rs, n, w)
       = Inr (rs @ new, n + length new, w')
     \<and> subseq (map StudentID new)
          (map (\<lambda>f. fst (os_path_splitext f)) (filter (\<lambda>f. endswith f ''.par'') names))
     \<and> length new + length (filter is_skip (stdout w'))
         = length (filter is_skip (stdout w)) + length (filter (\<lambda>f. endswith f ''.par'') names)
     \<and> filter is_progress (stdout w')
         = filter is_progress (stdout w) @ map (\<lambda>i. Processed i tot) [n + 1 ..< n + length new + 1]
     \<and> length (export_calls w')
         \<le> length (export_calls w) + retry_count * length (filter (\<lambda>f. endswith f ''.par'') names)"
proof (induction names arbitrary: rs n w)
  case Nil
  show ?case by (intro exI [of _ "[]"] exI [of _ w]) simp
next
  case (Cons f names)
  let ?par = "\<lambda>f. endswith f ''.par''"
  let ?stem = "\<lambda>f. fst (os_path_splitext f)"
  obtain new1 w1 where b:
    "submission_body E sf od ev es (Some c) tot f (rs, n, w)
       = Inr (rs @ new1, n + length new1, w1)"
    "subseq (map StudentID new1) (map ?stem (filter ?par [f]))"
    "length new1 + length (filter is_skip (stdout w1))
       = length (filter is_skip (stdout w)) + length (filter ?par [f])"
    "filter is_progress (stdout w1)
       = filter is_progress (stdout w) @ map (\<lambda>i. Processed i tot) [n + 1 ..< n + length new1 + 1]"
    "length (export_calls w1) \<le> length (export_calls w) + retry_count * length (filter ?par [f])"
    using submission_body_step [of E sf od ev es c tot f rs n w] by blast
  obtain new2 w2 where l:
    "submissions_loop E sf od ev es (Some c) tot names (rs @ new1, n + length new1, w1)
       = Inr ((rs @ new1) @ new2, (n + length new1) + length new2, w2)"
    "subseq (map StudentID new2) (map ?stem (filter ?par names))"
    "length new2 + length (filter is_skip (stdout w2))
       = length (filter is_skip (stdout w1)) + length (filter ?par names)"
    "filter is_progress (stdout w2)
       = filter is_progress (stdout w1)
         @ map (\<lambda>i. Processed i tot) [(n + length new1) + 1 ..< (n + length new1) + length new2 + 1]"
    "length (export_calls w2) \<le> length (export_calls w1) + retry_count * length (filter ?par names)"
    using Cons.IH [of "rs @ new1" "n + length new1" w1] by blast
  have split: "filter ?par (f # names) = filter ?par [f] @ filter ?par names" by simp
  have 1: "submissions_loop E sf od ev es (Some c) tot (f # names) (rs, n, w)
       = Inr (rs @ (new1 @ new2), n + length (new1 @ new2), w2)"
    using b(1) l(1) by (simp add: add.assoc)
  have 2: "subseq (map StudentID (new1 @ new2)) (map ?stem (filter ?par (f # names)))"
    unfolding split map_append using b(2) l(2) by (rule list_emb_append_mono)
  have 3: "length (new1 @ new2) + length (filter is_skip (stdout w2))
       = length (filter is_skip (stdout w)) + length (filter ?par (f # names))"
    unfolding split using b(3) l(3) by simp
  have upt: "[n + 1 ..< n + length new1 + 1] @ [n + length new1 + 1 ..< n + length new1 + length new2 + 1]
       = [n + 1 ..< n + length (new1 @ new2) + 1]"
    using upt_add_eq_append [of "n + 1" "n + length new1 + 1" "length new2"]
    by (simp add: add.commute add.left_commute)
  have 4: "filter is_progress (stdout w2)
       = filter is_progress (stdout w)
         @ map (\<lambda>i. Processed i tot) [n + 1 ..< n + length (new1 @ new2) + 1]"
    unfolding upt [symmetric] using b(4) l(4) by simp
  have 5: "length (export_calls w2)
       \<le> length (export_calls w) + retry_count * length (filter ?par (f # names))"
    unfolding split using b(5) l(5) by (simp add: algebra_simps)
  from 1 2 3 4 5 show ?case by blast
qed

section \<open>Properties of process_submissions\<close>

lemma process_submissions_summary:
  "\<exists>results w'.
     process_submissions E sf od ev es (Some c) w = Inr (results, w')
     \<and> subseq (map StudentID results)
          (map (\<lambda>f. fst (os_path_splitext f))
             (filter (\<lambda>f. endswith f ''.par'') (os_listdir sf w)))
     \<and> length results + length (filter is_skip (stdout w'))
         = length (filter is_skip (stdout w))
           + length (filter (\<lambda>f. endswith f ''.par'') (os_listdir sf w))
     \<and> filter is_progress (stdout w')
         = filter is_progress (stdout w)
           @ map (\<lambda>i. Processed i (length (filter (\<lambda>f. endswith f ''.par'') (os_listdir sf w))))
               [1 ..< length results + 1]
     \<and> length (export_calls w')
         \<le> length (export_calls w)
           + retry_count * length (filter (\<lambda>f. endswith f ''.par'') (os_listdir sf w))"
proof -
  let ?names = "os_listdir sf w"
  let ?tot = "length (filter (\<lambda>f. endswith f ''.par'') ?names)"
  obtain new w1 where l:
    "submissions_loop E sf od ev es (Some c) ?tot ?names ([], 0, w)
       = Inr ([] @ new, 0 + length new, w1)"
    "subseq (map StudentID new)
       (map (\<lambda>f. fst (os_path_splitext f)) (filter (\<lambda>f. endswith f ''.par'') ?names))"
    "length new + length (filter is_skip (stdout w1)) = length (filter is_skip (stdout w)) + ?tot"
    "filter is_progress (stdout w1)
       = filter is_progress (stdout w) @ map (\<lambda>i. Processed i ?tot) [0 + 1 ..< 0 + length new + 1]"
    "length (export_calls w1) \<le> length (export_calls w) + retry_count * ?tot"
    using submissions_loop_invariant [of E sf od ev es c ?tot ?names "[]" 0 w] by blast
  have p: "process_submissions E sf od ev es (Some c) w = Inr (new, clean_up_files od w1)"
    using l(1) by (simp add: process_submissions_def)
  have s: "filter is_skip (stdout (clean_up_files od w1)) = filter is_skip (stdout w1)"
    by (rule clean_up_files_frame(3)) simp_all
  have g: "filter is_progress (stdout (clean_up_files od w1)) = filter is_progress (stdout w1)"
    by (rule clean_up_files_frame(3)) simp_all
  have e: "export_calls (clean_up_files od w1) = export_calls w1"
    by (rule clean_up_files_frame(1))
  from l(2-5) show ?thesis
    unfolding p s [symmetric] g [symmetric] e [symmetric]
    by (intro exI [of _ new] exI [of _ "clean_up_files od w1"]) simp
qed

text \<open>
  Without an expected centre of gravity (extract_expected_values returned None for it) the
  first submission whose properties are read raises TypeError at line 176 and ends the run.
\<close>

lemma process_submissions_without_expected_cg:
  "map_sum id fst
     (process_submissions second_fails_env ''subs'' ''out'' (Some 1000) (Some 600) None
        batch_world) = Inl TypeError"
  by code_simp

text \<open>
  C2, as the specification states it, fails: a submission whose export fails on every
  attempt leaves no result. Of three submissions with the second one failing, two results
  come back, for the first and the third.
\<close>

theorem process_submissions_drops_failed_counterexample:
  "map_sum id (map StudentID \<circ> fst)
     (process_submissions second_fails_env ''subs'' ''out'' (Some 1000) (Some 600)
        (Some (1, 2, 3)) batch_world) = Inr [''s1'', ''s3'']"
  by code_simp

text \<open>
  C2, amended: with an expected centre of gravity, process_submissions raises nothing and
  returns at most one result per submission, in listing order; a submission whose export
  fails three times or whose properties cannot be calculated gets no result but one
  diagnostic naming the kind of failure, and the loop goes on: the results and the skip
  diagnostics together count the submissions. Of three submissions with the second one
  failing, two results come back, for the first and the third.
\<close>

theorem process_submissions_accounts_for_submissions:
  "(\<exists>results w'.
     process_submissions E sf od ev es (Some c) w = Inr (results, w')
     \<and> subseq (map StudentID results)
          (map (\<lambda>f. fst (os_path_splitext f))
             (filter (\<lambda>f. endswith f ''.par'') (os_listdir sf w)))
     \<and> length results + length (filter is_skip (stdout w'))
         = length (filter is_skip (stdout w))
           + length (filter (\<lambda>f. endswith f ''.par'') (os_listdir sf w)))
   \<and> map_sum id (map StudentID \<circ> fst)
       (process_submissions second_fails_env ''subs'' ''out'' (Some 1000) (Some 600)
          (Some (1, 2, 3)) batch_world) = Inr [''s1'', ''s3'']
   \<and> map_sum id (filter is_skip \<circ> stdout \<circ> snd)
       (process_submissions second_fails_env ''subs'' ''out'' (Some 1000) (Some 600)
          (Some (1, 2, 3)) batch_world) = Inr [FailedToExport ''s2.par'' 3]
   \<and> map_sum id (filter is_skip \<circ> stdout \<circ> snd)
       (process_submissions second_unreadable_env ''subs'' ''out'' (Some 1000) (Some 600)
          (Some (1, 2, 3)) batch_world) = Inr [ErrorCalculating ''s2.par'']"
proof (intro conjI)
  show "\<exists>results w'.
     process_submissions E sf od ev es (Some c) w = Inr (results, w')
     \<and> subseq (map StudentID results)
          (map (\<lambda>f. fst (os_path_splitext f))
             (filter (\<lambda>f. endswith f ''.par'') (os_listdir sf w)))
     \<and> length results + length (filter is_skip (stdout w'))
         = length (filter is_skip (stdout w))
           + length (filter (\<lambda>f. endswith f ''.par'') (os_listdir sf w))"
    using process_submissions_summary [of E sf od ev es c w] by blast
qed code_simp+

text \<open>
  C8, as the specification states it, fails: the run of three submissions with the
  second one failing prints two progress lines, none after the failed submission, and
  ends at 2 out of 3.
\<close>

theorem process_submissions_progress_counterexample:
  "map_sum id (stdout \<circ> snd)
     (process_submissions second_fails_env ''subs'' ''out'' (Some 1000) (Some 600)
        (Some (1, 2, 3)) batch_world)
   = Inr [Processed 1 3, ErrorExporting (''subs'', ''s2.par''),
      ErrorExporting (''subs'', ''s2.par''),
      ErrorExporting (''subs'', ''s2.par''), FailedToExport ''s2.par'' 3,
      Processed 2 3, DeletedFile (''out'', ''export.log'')]"
  by code_simp

text \<open>
  C8, amended: process_submissions prints one progress line after each submission it
  records a result for, the i-th of them reporting i out of the number of .par files
  listed; a skipped submission prints none and does not advance the count.
\<close>

theorem process_submissions_progress:
  "\<exists>results w'.
     process_submissions E sf od ev es (Some c) w = Inr (results, w')
     \<and> length results \<le> length (filter (\<lambda>f. endswith f ''.par'') (os_listdir sf w))
     \<and> filter is_progress (stdout w')
         = filter is_progress (stdout w)
           @ map (\<lambda>i. Processed i (length (filter (\<lambda>f. endswith f ''.par'') (os_listdir sf w))))
               [1 ..< length results + 1]"
proof -
  obtain results w' where r:
    "process_submissions E sf od ev es (Some c) w = Inr (results, w')"
    "subseq (map StudentID results)
          (map (\<lambda>f. fst (os_path_splitext f))
             (filter (\<lambda>f. endswith f ''.par'') (os_listdir sf w)))"
    "filter is_progress (stdout w')
         = filter is_progress (stdout w)
           @ map (\<lambda>i. Processed i (length (filter (\<lambda>f. endswith f ''.par'') (os_listdir sf w))))
               [1 ..< length results + 1]"
    using process_submissions_summary [of E sf od ev es c w] by blast
  from list_emb_length [OF r(2)]
  have "length results \<le> length (filter (\<lambda>f. endswith f ''.par'') (os_listdir sf w))"
    by simp
  with r(1,3) show ?thesis by blast
qed

text \<open>
  C6: the retry loop calls the export service at most as many times as it has attempts,
  every call before the last one returned nothing and a call that returns a path is the
  last one; process_submissions makes at most retry_count = 3 calls per submission. A
  service that fails twice and then succeeds is called exactly three times and the loop
  returns the path.
\<close>

theorem export_retry_bounded:
  "(export_retry E n p d w = (r, w') \<longrightarrow>
      length (export_calls w') \<le> length (export_calls w) + n
      \<and> (r = None \<longrightarrow> export_calls w' = export_calls w @ replicate n (p, None))
      \<and> (\<forall>s. r = Some s \<longrightarrow>
           (\<exists>k<n. export_calls w' = export_calls w @ replicate k (p, None) @ [(p, Some s)])))
   \<and> (\<exists>results w'.
        process_submissions E sf od ev es (Some c) w = Inr (results, w')
        \<and> length (export_calls w')
            \<le> length (export_calls w)
              + retry_count * length (filter (\<lambda>f. endswith f ''.par'') (os_listdir sf w)))
   \<and> retry_count = 3
   \<and> fst (export_retry flaky_env retry_count (''subs'', ''s1.par'') ''out'' empty_world)
       = Some (''out'', ''s1.step'')
   \<and> export_calls (snd (export_retry flaky_env retry_count (''subs'', ''s1.par'') ''out''
        empty_world))
       = [((''subs'', ''s1.par''), None), ((''subs'', ''s1.par''), None),
          ((''subs'', ''s1.par''), Some (''out'', ''s1.step''))]"
proof (intro conjI impI)
  assume h: "export_retry E n p d w = (r, w')"
  from h show "length (export_calls w') \<le> length (export_calls w) + n"
    by (rule export_retry_length)
  from export_retry_trace [OF h]
  show "r = None \<Longrightarrow> export_calls w' = export_calls w @ replicate n (p, None)"
    by blast
  from export_retry_trace [OF h]
  show "\<forall>s. r = Some s \<longrightarrow>
           (\<exists>k<n. export_calls w' = export_calls w @ replicate k (p, None) @ [(p, Some s)])"
    by blast
next
  show "\<exists>results w'.
        process_submissions E sf od ev es (Some c) w = Inr (results, w')
        \<and> length (export_calls w')
            \<le> length (export_calls w)
              + retry_count * length (filter (\<lambda>f. endswith f ''.par'') (os_listdir sf w))"
    using process_submissions_summary [of E sf od ev es c w] by blast
next
  show "retry_count = 3" by (simp add: retry_count_def)
qed code_simp+

theorem export_retry_bounded_witness:
  "export_retry flaky_env 3 (''subs'', ''s1.par'') ''out'' empty_world
     = (Some (''out'', ''s1.step''),
        snd (export_retry flaky_env 3 (''subs'', ''s1.par'') ''out'' empty_world))
   \<and> length (export_calls (snd (export_retry flaky_env 3 (''subs'', ''s1.par'') ''out''
         empty_world))) \<le> length (export_calls empty_world) + 3
   \<and> (\<exists>k<3. export_calls (snd (export_retry flaky_env 3 (''subs'', ''s1.par'') ''out''
         empty_world))
        = export_calls empty_world @ replicate k ((''subs'', ''s1.par''), None)
          @ [((''subs'', ''s1.par''), Some (''out'', ''s1.step''))])"
proof -
  let ?x = "export_retry flaky_env 3 (''subs'', ''s1.par'') ''out'' empty_world"
  have "fst ?x = Some (''out'', ''s1.step'')" by code_simp
  then have e: "?x = (Some (''out'', ''s1.step''), snd ?x)"
    by (metis prod.collapse)
  from export_retry_bounded [of flaky_env 3 "(''subs'', ''s1.par'')" "''out''" empty_world
      "Some (''out'', ''s1.step'')" "snd ?x"] e
  show ?thesis by blast
qed

section \<open>Expected values and the STEP files\<close>

text \<open>
  C9, as the specification states it, fails: extract_expected_values calls the export
  service once. When the first call fails and the second would succeed, it returns no
  properties, while the retry loop of process_submissions exports the same document and
  its properties are read.
\<close>

theorem extract_expected_values_no_retry_counterexample:
  "map_sum id fst
     (extract_expected_values first_fails_env (''ref'', ''solution.par'') ''out'' empty_world)
     = Inr (None, None, None)
   \<and> fst (export_retry first_fails_env retry_count (''ref'', ''solution.par'') ''out''
        empty_world) = Some (''out'', ''solution.step'')
   \<and> fst (calculate_properties first_fails_env (''out'', ''solution.step'')
        (snd (export_retry first_fails_env retry_count (''ref'', ''solution.par'') ''out''
           empty_world)))
     = (Some 1000, Some 600, Some (1, 2, 3))"
  by (intro conjI; code_simp)

text \<open>
  C9, amended: extract_expected_values makes one export attempt and does not retry. When
  that attempt succeeds, the retry loop of process_submissions started in the same state
  makes the same single call, and the expected values are the properties that
  calculate_properties reads from the exported file; when it fails, the expected values
  are (None, None, None).
\<close>

theorem extract_expected_values_single_attempt:
  "(export_to_step E p d w = (Some sp, w1) \<longrightarrow>
      export_retry E retry_count p d w = (Some sp, w1)
      \<and> (\<exists>w'. extract_expected_values E p d w = Inr (fst (calculate_properties E sp w1), w')))
   \<and> (export_to_step E p d w = (None, w1) \<longrightarrow>
      extract_expected_values E p d w = Inr ((None, None, None), w1)
      \<and> export_calls w1 = export_calls w @ [(p, None)])"
proof (intro conjI impI)
  assume h: "export_to_step E p d w = (Some sp, w1)"
  from h show "export_retry E retry_count p d w = (Some sp, w1)"
    by (simp add: retry_count_def numeral_3_eq_3)
  obtain props w2 where cp: "calculate_properties E sp w1 = (props, w2)"
    by (cases "calculate_properties E sp w1")
  obtain w3 where w3: "(if os_path_isfile sp w2 then os_remove sp w2 else Inr w2) = Inr w3"
    using guarded_remove_Inr by blast
  from h cp w3
  have "extract_expected_values E p d w = Inr (props, clean_up_files d w3)"
    by (simp add: extract_expected_values_def)
  with cp show "\<exists>w'. extract_expected_values E p d w
      = Inr (fst (calculate_properties E sp w1), w')"
    by simp
next
  assume h: "export_to_step E p d w = (None, w1)"
  then show "extract_expected_values E p d w = Inr ((None, None, None), w1)"
    by (simp add: extract_expected_values_def)
  from h show "export_calls w1 = export_calls w @ [(p, None)]"
    by (rule export_to_step_calls)
qed

theorem extract_expected_values_single_attempt_witness:
  "export_to_step flaky_env (''ref'', ''solution.par'') ''out'' empty_world
     = (None, snd (export_to_step flaky_env (''ref'', ''solution.par'') ''out'' empty_world))
   \<and> map_sum id fst
       (extract_expected_values flaky_env (''ref'', ''solution.par'') ''out'' empty_world)
     = Inr (None, None, None)
   \<and> export_to_step second_fails_env (''ref'', ''solution.par'') ''out'' empty_world
     = (Some (''out'', ''solution.step''),
        snd (export_to_step second_fails_env (''ref'', ''solution.par'') ''out'' empty_world))
   \<and> fst (export_retry second_fails_env retry_count (''ref'', ''solution.par'') ''out''
        empty_world) = Some (''out'', ''solution.step'')
   \<and> map_sum id fst
       (extract_expected_values second_fails_env (''ref'', ''solution.par'') ''out'' empty_world)
     = Inr (Some 1000, Some 600, Some (1, 2, 3))"
proof -
  let ?p = "(''ref'', ''solution.par'')"
  let ?a = "export_to_step flaky_env ?p ''out'' empty_world"
  let ?b = "export_to_step second_fails_env ?p ''out'' empty_world"
  have "fst ?a = None" by code_simp
  then have a: "?a = (None, snd ?a)" by (metis prod.collapse)
  have "fst ?b = Some (''out'', ''solution.step'')" by code_simp
  then have b: "?b = (Some (''out'', ''solution.step''), snd ?b)" by (metis prod.collapse)
  have v: "fst (calculate_properties second_fails_env (''out'', ''solution.step'') (snd ?b))
     = (Some 1000, Some 600, Some (1, 2, 3))" by code_simp
  from extract_expected_values_single_attempt [of flaky_env ?p "''out''" empty_world "(''out'', ''solution.step'')" "snd ?a"] a
  have 1: "extract_expected_values flaky_env ?p ''out'' empty_world
      = Inr ((None, None, None), snd ?a)" by blast
  from extract_expected_values_single_attempt [of second_fails_env ?p "''out''" empty_world "(''out'', ''solution.step'')" "snd ?b"] b
  have 2: "export_retry second_fails_env retry_count ?p ''out'' empty_world
       = (Some (''out'', ''solution.step''), snd ?b)"
    and 3: "\<exists>w'. extract_expected_values second_fails_env ?p ''out'' empty_world
      = Inr (fst (calculate_properties second_fails_env (''out'', ''solution.step'') (snd ?b)), w')"
    by blast+
  from 3 v obtain w' where 4: "extract_expected_values second_fails_env ?p ''out'' empty_world
      = Inr ((Some 1000, Some 600, Some (1, 2, 3)), w')" by auto
  show ?thesis
    apply (intro conjI)
    apply (rule a)
    apply (simp add: 1)
    apply (rule b)
    apply (simp add: 2)
    apply (simp add: 4)
    done
qed

lemma endswith_append: "endswith (a @ b) b"
  by (simp add: endswith_def)

lemma step_file_path_of_step: "endswith (snd (step_file_path_of p d)) ''.step''"
  by (simp add: step_file_path_of_def os_path_join_def Let_def endswith_append)







section \<open>Properties of save_results_to_csv\<close>

lemma digit_char_digit: "d < 10 \<Longrightarrow> digit_char d \<in> set ''0123456789''"
  unfolding digit_char_def by (rule nth_mem) simp

lemma digits10_digits: "c \<in> set (digits10 n) \<Longrightarrow> c \<in> set ''0123456789''"
proof (induction n rule: digits10.induct)
  case (1 n)
  show ?case
  proof (cases "n < 10")
    case True
    with "1.prems" have "c = digit_char n" by (subst (asm) digits10.simps) simp
    with True show ?thesis using digit_char_digit by blast
  next
    case False
    with "1.prems" have "c \<in> set (digits10 (n div 10)) \<or> c = digit_char (n mod 10)"
      by (subst (asm) digits10.simps) auto
    then show ?thesis
    proof
      assume "c \<in> set (digits10 (n div 10))"
      with False "1.IH" show ?thesis by blast
    next
      assume "c = digit_char (n mod 10)"
      then show ?thesis using digit_char_digit [of "n mod 10"] by simp
    qed
  qed
qed

lemma digits10_no_point: "c \<in> set (digits10 n) \<Longrightarrow> c \<noteq> CHR ''.''"
  using digits10_digits [of c n] by auto

lemma digits10_length: "n < 10 ^ d \<Longrightarrow> 0 < d \<Longrightarrow> length (digits10 n) \<le> d"
proof (induction d arbitrary: n)
  case 0
  then show ?case by simp
next
  case (Suc d)
  show ?case
  proof (cases "n < 10")
    case True
    then show ?thesis by (subst digits10.simps) simp
  next
    case False
    with Suc.prems have d: "0 < d" by (cases d) auto
    from Suc.prems have "n div 10 < 10 ^ d"
      by (simp add: less_mult_imp_div_less mult.commute)
    from Suc.IH [OF this d] False show ?thesis
      by (subst digits10.simps) simp
  qed
qed

lemma decimal_places_format_f:
  assumes "0 < d"
  shows "decimal_places (format_f d x) = d"
proof -
  define n where "n = nat (round_half_even (\<bar>x\<bar> * 10 ^ d))"
  define frac where "frac = digits10 (n mod 10 ^ d)"
  define front where "front = (if x < 0 then ''-'' else []) @ digits10 (n div 10 ^ d)"
  have f: "format_f d x = front @ ''.'' @ replicate (d - length frac) (CHR ''0'') @ frac"
    using assms by (simp add: format_f_def Let_def n_def frac_def front_def)
  have "\<And>c. c \<in> set front \<Longrightarrow> c \<noteq> CHR ''.''"
    using digits10_no_point by (auto simp: front_def split: if_splits)
  then have dw: "dropWhile (\<lambda>c. c \<noteq> CHR ''.'') (front @ ''.'' @ replicate (d - length frac) (CHR ''0'') @ frac)
      = ''.'' @ replicate (d - length frac) (CHR ''0'') @ frac"
    by (simp add: dropWhile_append2)
  have "length frac \<le> d"
    unfolding frac_def using assms by (intro digits10_length) simp_all
  then show ?thesis
    unfolding decimal_places_def f dw by simp
qed

lemma writerow_row_of_result:
  "writerow fieldnames (row_of_result r) f =
     Inr (f @ [[StudentID r, format_f 3 (Volume r), format_f 3 (SurfaceArea r),
        (case CenterOfGravity r of
           (x, y, z) \<Rightarrow> ''('' @ format_f 3 x @ '', '' @ format_f 3 y @ '', '' @ format_f 3 z @ '')''),
        format_f 2 (of_int (VolumeMark r)), format_f 2 (of_int (SurfaceAreaMark r)),
        format_f 2 (CGMark r)]])"
  by (simp add: writerow_def row_of_result_def fieldnames_def)

lemma write_rows_map:
  "write_rows results f =
     Inr (f @ map (\<lambda>r. [StudentID r, format_f 3 (Volume r), format_f 3 (SurfaceArea r),
        (case CenterOfGravity r of
           (x, y, z) \<Rightarrow> ''('' @ format_f 3 x @ '', '' @ format_f 3 y @ '', '' @ format_f 3 z @ '')''),
        format_f 2 (of_int (VolumeMark r)), format_f 2 (of_int (SurfaceAreaMark r)),
        format_f 2 (CGMark r)]) results)"
  by (induction results arbitrary: f) (simp_all add: writerow_row_of_result)

lemma round_half_even_down:
  assumes "of_int k \<le> y" and "y - of_int k < 1 / 2"
  shows "round_half_even y = k"
proof -
  have "\<lfloor>y\<rfloor> = k" using assms by (intro floor_unique) auto
  with assms(2) show ?thesis by (simp add: round_half_even_def Let_def)
qed

lemma replicate_small:
  "replicate 2 x = [x, x]" "replicate 3 x = [x, x, x]"
  by (simp_all add: numeral_2_eq_2 numeral_3_eq_3)

lemma round_third: "round_half_even (\<bar>- (1 / 3)\<bar> * 10 ^ 3) = 333"
  by (rule round_half_even_down) simp_all
lemma round_volume: "round_half_even (\<bar>3001 / 3\<bar> * 10 ^ 3) = 1000333"
  by (rule round_half_even_down) simp_all
lemma round_area: "round_half_even (\<bar>600\<bar> * 10 ^ 3) = 600000"
  by (rule round_half_even_down) simp_all
lemma digits10_333: "digits10 333 = ''333''"
  by (simp add: digits10.simps digit_char_def replicate_small)
lemma format_f_minus_third: "format_f 3 (- (1 / 3)) = ''-0.333''"
  unfolding format_f_def Let_def round_third by (simp add: digits10.simps digit_char_def replicate_small)
lemma format_f_volume: "format_f 3 (3001 / 3) = ''1000.333''"
  unfolding format_f_def Let_def round_volume by (simp add: digits10.simps digit_char_def replicate_small)
lemma format_f_area: "format_f 3 600 = ''600.000''"
  unfolding format_f_def Let_def round_area by (simp add: digits10.simps digit_char_def replicate_small)

lemma round_cg_mark: "round_half_even (\<bar>10 / 3\<bar> * 10 ^ 2) = 333"
  by (rule round_half_even_down) simp_all
lemma round_five: "round_half_even (\<bar>5\<bar> * 10 ^ 2) = 500"
  by (rule round_half_even_down) simp_all
lemma format_f_cg_mark: "format_f 2 (10 / 3) = ''3.33''"
  unfolding format_f_def Let_def round_cg_mark by (simp add: digits10.simps digit_char_def replicate_small)
lemma format_f_five: "format_f 2 5 = ''5.00''"
  unfolding format_f_def Let_def round_five by (simp add: digits10.simps digit_char_def replicate_small)
lemma format_f_zero: "format_f 3 0 = ''0.000''"
  unfolding format_f_def Let_def by (simp add: round_half_even_def digits10.simps digit_char_def replicate_small)
lemma format_f_one: "format_f 3 1 = ''1.000''"
  unfolding format_f_def Let_def by (simp add: round_half_even_def digits10.simps digit_char_def replicate_small)
lemma format_f_four: "format_f 2 4 = ''4.00''"
  unfolding format_f_def Let_def by (simp add: round_half_even_def digits10.simps digit_char_def replicate_small)

text \<open>
  C7: the file starts with the header row StudentID, Volume, SurfaceArea,
  CenterOfGravity, VolumeMark, SurfaceAreaMark, CGMark and has one row per result in the
  order of the results; volume, surface area and the three coordinates of the centre of
  gravity, written as a triple, have 3 digits after the point, the marks 2. Results given
  as S3, S1, S2 are written in that order.
\<close>

theorem save_results_to_csv_rows:
  "save_results_to_csv results =
     Inr ([''StudentID'', ''Volume'', ''SurfaceArea'', ''CenterOfGravity'', ''VolumeMark'',
           ''SurfaceAreaMark'', ''CGMark'']
          # map (\<lambda>r. [StudentID r, format_f 3 (Volume r), format_f 3 (SurfaceArea r),
               (case CenterOfGravity r of
                  (x, y, z) \<Rightarrow>
                    ''('' @ format_f 3 x @ '', '' @ format_f 3 y @ '', '' @ format_f 3 z @ '')''),
               format_f 2 (of_int (VolumeMark r)), format_f 2 (of_int (SurfaceAreaMark r)),
               format_f 2 (CGMark r)]) results)
   \<and> decimal_places (format_f 3 v) = 3
   \<and> decimal_places (format_f 2 m) = 2
   \<and> save_results_to_csv [example_result ''S3'', example_result ''S1'', example_result ''S2'']
     = Inr [[''StudentID'', ''Volume'', ''SurfaceArea'', ''CenterOfGravity'', ''VolumeMark'',
             ''SurfaceAreaMark'', ''CGMark''],
            [''S3'', ''1000.333'', ''600.000'', ''(1.000, -0.333, 0.000)'', ''5.00'', ''4.00'',
             ''3.33''],
            [''S1'', ''1000.333'', ''600.000'', ''(1.000, -0.333, 0.000)'', ''5.00'', ''4.00'',
             ''3.33''],
            [''S2'', ''1000.333'', ''600.000'', ''(1.000, -0.333, 0.000)'', ''5.00'', ''4.00'',
             ''3.33'']]"
proof (intro conjI)
  show "save_results_to_csv results =
     Inr ([''StudentID'', ''Volume'', ''SurfaceArea'', ''CenterOfGravity'', ''VolumeMark'',
           ''SurfaceAreaMark'', ''CGMark'']
          # map (\<lambda>r. [StudentID r, format_f 3 (Volume r), format_f 3 (SurfaceArea r),
               (case CenterOfGravity r of
                  (x, y, z) \<Rightarrow>
                    ''('' @ format_f 3 x @ '', '' @ format_f 3 y @ '', '' @ format_f 3 z @ '')''),
               format_f 2 (of_int (VolumeMark r)), format_f 2 (of_int (SurfaceAreaMark r)),
               format_f 2 (CGMark r)]) results)"
    by (simp add: save_results_to_csv_def write_rows_map writeheader_def fieldnames_def)
  show "decimal_places (format_f 3 v) = 3" by (rule decimal_places_format_f) simp
  show "decimal_places (format_f 2 m) = 2" by (rule decimal_places_format_f) simp
next
  show "save_results_to_csv [example_result ''S3'', example_result ''S1'', example_result ''S2'']
     = Inr [[''StudentID'', ''Volume'', ''SurfaceArea'', ''CenterOfGravity'', ''VolumeMark'',
             ''SurfaceAreaMark'', ''CGMark''],
            [''S3'', ''1000.333'', ''600.000'', ''(1.000, -0.333, 0.000)'', ''5.00'', ''4.00'',
             ''3.33''],
            [''S1'', ''1000.333'', ''600.000'', ''(1.000, -0.333, 0.000)'', ''5.00'', ''4.00'',
             ''3.33''],
            [''S2'', ''1000.333'', ''600.000'', ''(1.000, -0.333, 0.000)'', ''5.00'', ''4.00'',
             ''3.33'']]"
    unfolding save_results_to_csv_def write_rows_map writeheader_def fieldnames_def
      example_result_def
    by (simp add: format_f_minus_third format_f_volume format_f_area format_f_cg_mark format_f_five format_f_zero format_f_one format_f_four)
qed

end
